theory Spec2Isabelle
  imports Main "HOL-Library.Word"
begin

text \<open>
  A model of the two programs of the repository: the exchange-rate widget, of which the
  history kept by \<open>updateChart\<close> is modelled, and the LifeRhythm agent: its date context,
  its connection to the MCP server and the loop of \<open>process\<close> that asks the decision
  service and runs the tool calls it requests. Functions keep the names they have in the
  source. What a function does to the outside is made explicit: it takes and returns the
  state it touches, and a result is either a value or the exception raised.
\<close>

section \<open>JavaScript values shared by the widget and the agent\<close>

text \<open>
  A JavaScript string is a sequence of UTF-16 code units. Literals of the source that are
  plain ASCII are written with \<open>ascii\<close>.
\<close>

type_synonym jsstring = "16 word list"

definition ascii :: "string \<Rightarrow> jsstring" where
  "ascii s = map (\<lambda>c. of_nat (of_char c)) s"

text \<open>The built-in exceptions the modelled code can raise by itself.\<close>

datatype js_exception = TypeError | RangeError

section \<open>The exchange-rate widget: \<open>updateChart\<close>\<close>

text \<open>
  The module keeps four globals: \<open>currentRate\<close>, \<open>previousRate\<close>, \<open>chart\<close> (initially
  \<open>null\<close>) and \<open>historicalData\<close> (initially \<open>[]\<close>). The rate is a JavaScript number on
  which \<open>updateChart\<close> does no arithmetic, so its type is left open.
\<close>

record 'n point =
  time :: jsstring
  rate :: 'n

record 'n dataset =
  data :: "'n list"

record 'n chart_data =
  labels :: "jsstring list"
  datasets :: "'n dataset list"

record 'n widget =
  currentRate :: 'n
  previousRate :: 'n
  chart :: "'n chart_data option"
  historicalData :: "'n point list"

text \<open>
  \<open>updateChart\<close>, with the label \<open>new Date().toLocaleTimeString()\<close> passed in. The push and
  the shift happen before the chart is touched, so they survive the \<open>TypeError\<close> that
  \<open>chart.data.labels = ...\<close> raises on a \<open>null\<close> chart and that
  \<open>chart.data.datasets[0].data = ...\<close> raises on a chart without datasets.
  \<open>chart.update()\<close> redraws and changes none of the modelled fields.
\<close>

definition updateChart :: "jsstring \<Rightarrow> 'n widget \<Rightarrow> js_exception option \<times> 'n widget" where
  "updateChart timeLabel st =
     (let pushed = historicalData st @ [\<lparr>time = timeLabel, rate = currentRate st\<rparr>];
          hist = (if length pushed > 20 then tl pushed else pushed);
          st1 = st\<lparr>historicalData := hist\<rparr>
      in case chart st1 of
           None \<Rightarrow> (Some TypeError, st1)
         | Some ch \<Rightarrow>
             (let ch1 = ch\<lparr>labels := map time hist\<rparr>
              in case datasets ch1 of
                   [] \<Rightarrow> (Some TypeError, st1\<lparr>chart := Some ch1\<rparr>)
                 | ds # rest \<Rightarrow>
                     (None, st1\<lparr>chart := Some (ch1\<lparr>datasets := ds\<lparr>data := map rate hist\<rparr> # rest\<rparr>)\<rparr>)))"

text \<open>A number of polls in a row: each sets \<open>currentRate\<close> and calls \<open>updateChart\<close>.\<close>

fun polls :: "(jsstring \<times> 'n) list \<Rightarrow> 'n widget \<Rightarrow> 'n widget" where
  "polls [] st = st"
| "polls ((lbl, r) # ps) st = polls ps (snd (updateChart lbl (st\<lparr>currentRate := r\<rparr>)))"

section \<open>The agent: JavaScript's strings and \<open>Date\<close>\<close>

subsection \<open>String helpers\<close>

text \<open>
  \<open>String.prototype.trim\<close> removes the code units of ECMAScript's WhiteSpace and
  LineTerminator productions from both ends.
\<close>

definition isWhiteSpace :: "16 word \<Rightarrow> bool" where
  "isWhiteSpace c \<longleftrightarrow>
     c \<in> {0x9, 0xA, 0xB, 0xC, 0xD, 0x20, 0xA0, 0x1680, 0x2028, 0x2029, 0x202F, 0x205F,
          0x3000, 0xFEFF} \<or> (0x2000 \<le> c \<and> c \<le> 0x200A)"

definition trim :: "jsstring \<Rightarrow> jsstring" where
  "trim s = rev (dropWhile isWhiteSpace (rev (dropWhile isWhiteSpace s)))"

text \<open>\<open>Array.prototype.join\<close> on an array of strings.\<close>

fun join :: "jsstring \<Rightarrow> jsstring list \<Rightarrow> jsstring" where
  "join sep [] = []"
| "join sep [x] = x"
| "join sep (x # y # ys) = x @ sep @ join sep (y # ys)"

text \<open>\<open>s.split('T')[0]\<close>: the part of \<open>s\<close> before its first \<open>T\<close> (all of it when it has none).\<close>

definition split_T_0 :: "jsstring \<Rightarrow> jsstring" where
  "split_T_0 s = takeWhile (\<lambda>c. c \<noteq> 0x54) s"

definition digit :: "nat \<Rightarrow> 16 word" where
  "digit d = of_nat (48 + d)"

text \<open>A non-negative integer in decimal, as a template literal renders it.\<close>

fun decimal :: "nat \<Rightarrow> jsstring" where
  "decimal n = (if n < 10 then [digit n] else decimal (n div 10) @ [digit (n mod 10)])"

declare decimal.simps [simp del]

text \<open>A non-negative integer in decimal, zero-padded (or cut) to \<open>w\<close> digits.\<close>

fun padded :: "nat \<Rightarrow> nat \<Rightarrow> jsstring" where
  "padded w n = (if w = 0 then [] else padded (w - 1) (n div 10) @ [digit (n mod 10)])"

declare padded.simps [simp del]

subsection \<open>Time values\<close>

text \<open>
  A \<open>Date\<close> holds a time value: milliseconds since 1970-01-01T00:00Z, an integer of
  magnitude at most \<open>8.64e15\<close>, or \<open>NaN\<close> (an invalid date), here \<open>None\<close>. The functions
  below are ECMA-262's, over the proleptic Gregorian calendar; \<open>civil_from_days\<close> is the
  closed form of its \<open>YearFromTime\<close>, \<open>MonthFromTime\<close> and \<open>DateFromTime\<close>, and
  \<open>days_from_civil\<close> of the day number \<open>MakeDay\<close> looks for. The host's time zone enters
  through \<open>LocalTZA\<close>, the offset of local time from UTC in milliseconds.
\<close>

type_synonym timezone = "int \<Rightarrow> bool \<Rightarrow> int"

definition msPerDay :: int where
  "msPerDay = 86400000"

definition Day :: "int \<Rightarrow> int" where
  "Day t = t div msPerDay"

definition TimeWithinDay :: "int \<Rightarrow> int" where
  "TimeWithinDay t = t mod msPerDay"

definition WeekDay :: "int \<Rightarrow> int" where
  "WeekDay t = (Day t + 4) mod 7"

definition civil_from_days :: "int \<Rightarrow> int \<times> int \<times> int" where
  "civil_from_days n =
     (let z = n + 719468;
          era = z div 146097;
          doe = z mod 146097;
          yoe = (doe - doe div 1460 + doe div 36524 - doe div 146096) div 365;
          doy = doe - (365 * yoe + yoe div 4 - yoe div 100);
          mp = (5 * doy + 2) div 153;
          d = doy - (153 * mp + 2) div 5 + 1;
          m = (if mp < 10 then mp + 3 else mp - 9);
          y = yoe + era * 400 + (if m \<le> 2 then 1 else 0)
      in (y, m - 1, d))"

definition days_from_civil :: "int \<Rightarrow> int \<Rightarrow> int \<Rightarrow> int" where
  "days_from_civil y0 m0 d =
     (let m = m0 + 1;
          y = (if m \<le> 2 then y0 - 1 else y0);
          era = y div 400;
          yoe = y mod 400;
          doy = (153 * (if m > 2 then m - 3 else m + 9) + 2) div 5 + d - 1;
          doe = yoe * 365 + yoe div 4 - yoe div 100 + doy
      in era * 146097 + doe - 719468)"

definition YearFromTime :: "int \<Rightarrow> int" where
  "YearFromTime t = fst (civil_from_days (Day t))"

definition MonthFromTime :: "int \<Rightarrow> int" where
  "MonthFromTime t = fst (snd (civil_from_days (Day t)))"

definition DateFromTime :: "int \<Rightarrow> int" where
  "DateFromTime t = snd (snd (civil_from_days (Day t)))"

definition MakeDay :: "int \<Rightarrow> int \<Rightarrow> int \<Rightarrow> int" where
  "MakeDay year month date = days_from_civil (year + month div 12) (month mod 12) 1 + date - 1"

definition MakeDate :: "int \<Rightarrow> int \<Rightarrow> int" where
  "MakeDate day tm = day * msPerDay + tm"

definition TimeClip :: "int \<Rightarrow> int option" where
  "TimeClip t = (if \<bar>t\<bar> > 8640000000000000 then None else Some t)"

definition LocalTime :: "timezone \<Rightarrow> int \<Rightarrow> int" where
  "LocalTime tza t = t + tza t True"

definition UTC :: "timezone \<Rightarrow> int \<Rightarrow> int" where
  "UTC tza t = t - tza t False"

text \<open>\<open>getDay\<close> and \<open>getDate\<close> read local time; \<open>setDate\<close> writes it.\<close>

definition getDay :: "timezone \<Rightarrow> int \<Rightarrow> int" where
  "getDay tza t = WeekDay (LocalTime tza t)"

definition getDate :: "timezone \<Rightarrow> int \<Rightarrow> int" where
  "getDate tza t = DateFromTime (LocalTime tza t)"

definition setDate :: "timezone \<Rightarrow> int \<Rightarrow> int \<Rightarrow> int option" where
  "setDate tza tv dt =
     (let t = LocalTime tza tv;
          newDate = MakeDate (MakeDay (YearFromTime t) (MonthFromTime t) dt) (TimeWithinDay t)
      in TimeClip (UTC tza newDate))"

text \<open>
  \<open>toISOString\<close> reads UTC and raises \<open>RangeError\<close> on an invalid date. Years outside
  0..9999 are written with a sign and six digits.
\<close>

definition isoYear :: "int \<Rightarrow> jsstring" where
  "isoYear y =
     (if 0 \<le> y \<and> y \<le> 9999 then padded 4 (nat y)
      else (if y < 0 then ascii ''-'' else ascii ''+'') @ padded 6 (nat \<bar>y\<bar>))"

definition toISOString :: "int option \<Rightarrow> js_exception + jsstring" where
  "toISOString tv =
     (case tv of
        None \<Rightarrow> Inl RangeError
      | Some t \<Rightarrow>
          (let ms = TimeWithinDay t
           in Inr (isoYear (YearFromTime t) @ ascii ''-''
                   @ padded 2 (nat (MonthFromTime t + 1)) @ ascii ''-''
                   @ padded 2 (nat (DateFromTime t)) @ ascii ''T''
                   @ padded 2 (nat (ms div 3600000)) @ ascii '':''
                   @ padded 2 (nat (ms div 60000 mod 60)) @ ascii '':''
                   @ padded 2 (nat (ms div 1000 mod 60)) @ ascii ''.''
                   @ padded 3 (nat (ms mod 1000)) @ ascii ''Z'')))"

subsection \<open>\<open>formatDateContext\<close>\<close>

text \<open>
  What the function takes from the host besides the date: the time zone, and \<open>Intl\<close>'s
  rendering \<open>date.toLocaleDateString('en-CA', {weekday: 'long', year: 'numeric', month:
  'long', day: 'numeric'})\<close> of a time value.
\<close>

record intl =
  LocalTZA :: timezone
  toLocaleDateString :: "int \<Rightarrow> jsstring"

definition weekdays :: "jsstring list" where
  "weekdays = map ascii [''Sunday'', ''Monday'', ''Tuesday'', ''Wednesday'', ''Thursday'',
     ''Friday'', ''Saturday'']"

text \<open>
  The callback of \<open>weekdays.map\<close>. Its \<open>%\<close> has a dividend between 1 and 13, where
  JavaScript's remainder and \<open>mod\<close> agree. \<open>new Date(date)\<close> copies the time value.
\<close>

definition recentWeekday ::
  "timezone \<Rightarrow> int \<Rightarrow> int \<Rightarrow> jsstring \<Rightarrow> int \<Rightarrow> js_exception + jsstring" where
  "recentWeekday tza date todayIdx weekdayName idx =
     (let diff = (todayIdx - idx + 7) mod 7;
          d = setDate tza date (getDate tza date - diff)
      in case toISOString d of
           Inl e \<Rightarrow> Inl e
         | Inr s \<Rightarrow> Inr (weekdayName @ ascii '': '' @ split_T_0 s))"

text \<open>\<open>Array.prototype.map\<close> with a callback that may raise: the first exception ends it.\<close>

fun map_indexed ::
  "('a \<Rightarrow> int \<Rightarrow> js_exception + 'b) \<Rightarrow> int \<Rightarrow> 'a list \<Rightarrow> js_exception + 'b list" where
  "map_indexed f i [] = Inr []"
| "map_indexed f i (x # xs) =
     (case f x i of
        Inl e \<Rightarrow> Inl e
      | Inr y \<Rightarrow> (case map_indexed f (i + 1) xs of Inl e \<Rightarrow> Inl e | Inr ys \<Rightarrow> Inr (y # ys)))"

definition recentWeekdays :: "timezone \<Rightarrow> int \<Rightarrow> js_exception + jsstring list" where
  "recentWeekdays tza date = map_indexed (recentWeekday tza date (getDay tza date)) 0 weekdays"

text \<open>
  \<open>formatDateContext\<close>. Its first statement is \<open>date.toISOString()\<close>, which raises on an
  invalid date, so nothing after it sees one. The local \<open>weekday\<close> is computed and never
  used; it is left out.
\<close>

definition formatDateContext :: "'a intl_scheme \<Rightarrow> int option \<Rightarrow> js_exception + jsstring" where
  "formatDateContext host date =
     (case toISOString date of
        Inl e \<Rightarrow> Inl e
      | Inr s \<Rightarrow>
          (case date of
             None \<Rightarrow> Inl RangeError
           | Some t \<Rightarrow>
               (let iso = split_T_0 s;
                    readable = toLocaleDateString host t
                in case recentWeekdays (LocalTZA host) t of
                     Inl e \<Rightarrow> Inl e
                   | Inr recent \<Rightarrow>
                       Inr (join [0xA]
                             ([ascii ''[DATE CONTEXT]'',
                               ascii ''Today is '' @ readable @ ascii '' ('' @ iso @ ascii '').'',
                               ascii ''Recent dates for reference:'']
                              @ map (\<lambda>s. ascii ''  '' @ s) recent
                              @ [ascii ''[/DATE CONTEXT]''])))))"

section \<open>The agent: \<open>LifeRhythmAgent\<close>\<close>

subsection \<open>Data\<close>

text \<open>
  Structured values (tool inputs and schemas, type \<open>'j\<close>), tool results (\<open>'r\<close>) and the
  values the collaborators reject with (\<open>'e\<close>) are opaque to the agent. An entry of
  \<open>this.tools\<close> and an entry of the peer's \<open>listTools()\<close> answer:
\<close>

datatype 'j tool = Tool (name: jsstring) (description: jsstring) (input_schema: 'j)

datatype 'j tool_info = ToolInfo (info_name: jsstring) (info_description: jsstring) (inputSchema: 'j)

text \<open>
  The fields of the instance. \<open>mcpClient\<close> is \<open>null\<close> or a reference to a \<open>Client\<close> object;
  the object itself belongs to the world outside. \<open>this.anthropic\<close> is the host's
  \<open>messages_create\<close> below.
\<close>

record 'j LifeRhythmAgent =
  mcpServerPath :: jsstring
  sheetId :: jsstring
  mcpClient :: "nat option"
  tools :: "'j tool list"

definition new_LifeRhythmAgent :: "jsstring \<Rightarrow> jsstring \<Rightarrow> 'j LifeRhythmAgent" where
  "new_LifeRhythmAgent path sheet =
     \<lparr>mcpServerPath = path, sheetId = sheet, mcpClient = None, tools = []\<rparr>"

text \<open>
  A content block of a response is tagged \<open>text\<close> (with its text), \<open>tool_use\<close> (with id,
  name and input) or something else (with its tag).
\<close>

datatype 'j block = Text jsstring | ToolUse jsstring jsstring 'j | Other jsstring

datatype 'j response = Response (stop_reason: jsstring) (content: "'j block list")

datatype tool_result = ToolResult (tool_use_id: jsstring) (result_content: jsstring)

datatype role = user | assistant

datatype 'j message_content =
  Str jsstring | Blocks "'j block list" | Results "tool_result list"

datatype 'j message = Message role "'j message_content"

datatype 'j request =
  Request (req_model: jsstring) (max_tokens: nat) (system: jsstring)
    (req_tools: "'j tool list") (req_messages: "'j message list")

record ('j, 'r) action =
  tool :: jsstring
  input :: 'j
  result :: 'r

record transport =
  command :: jsstring
  args :: "jsstring list"
  cwd :: jsstring
  env :: "(jsstring \<times> jsstring) list"

subsection \<open>The collaborators\<close>

text \<open>
  The decision service and the MCP peer are not part of the repository. Each call to one
  of them takes the state \<open>'w\<close> of the world outside, answers or rejects, and leaves a new
  state; nothing else is assumed of them. \<open>SYSTEM_PROMPT\<close> is the module's constant, whose
  text no property below depends on.
\<close>

record ('w, 'j, 'r, 'e) host = intl +
  SYSTEM_PROMPT :: jsstring
  messages_create :: "'j request \<Rightarrow> 'w \<Rightarrow> ('e + 'j response) \<times> 'w"
  new_Client :: "'w \<Rightarrow> nat \<times> 'w"
  Client_connect :: "nat \<Rightarrow> transport \<Rightarrow> 'w \<Rightarrow> ('e + unit) \<times> 'w"
  Client_listTools :: "nat \<Rightarrow> 'w \<Rightarrow> ('e + 'j tool_info list) \<times> 'w"
  Client_callTool :: "nat \<Rightarrow> jsstring \<Rightarrow> 'j \<Rightarrow> 'w \<Rightarrow> ('e + 'r) \<times> 'w"
  Client_close :: "nat \<Rightarrow> 'w \<Rightarrow> ('e + unit) \<times> 'w"
  JSON_stringify :: "'r \<Rightarrow> jsstring"

text \<open>
  The calls made to the collaborators are logged in a trace, in order, with what they
  answered. The trace is no state of the program: it is there so that properties about
  which calls are made, and how often, can be stated.
\<close>

datatype ('j, 'r, 'e) event =
    Create "'j request" "'e + 'j response"
  | Connect nat transport "'e + unit"
  | ListTools nat "'e + 'j tool_info list"
  | CallTool nat jsstring 'j "'e + 'r"
  | Close nat "'e + unit"

record ('w, 'j, 'r, 'e) machine =
  this :: "'j LifeRhythmAgent"
  world :: 'w
  trace :: "('j, 'r, 'e) event list"

text \<open>
  What a method can fail with: an \<open>Error\<close> the agent constructs itself (with its message),
  a built-in exception, or a collaborator's rejection, passed on as it is.
\<close>

datatype 'e failure = Error jsstring | Exception js_exception | Rejected 'e

subsection \<open>\<open>connect\<close> and \<open>disconnect\<close>\<close>

text \<open>\<open>a || b\<close> for a string or \<open>undefined\<close>: the empty string is falsy too.\<close>

definition or_else :: "jsstring option \<Rightarrow> jsstring \<Rightarrow> jsstring" where
  "or_else a b = (case a of None \<Rightarrow> b | Some v \<Rightarrow> if v = [] then b else v)"

text \<open>
  The object literal \<open>mcpEnv\<close> (an absent value of \<open>process.env\<close> is \<open>undefined\<close>, here
  \<open>None\<close>), and the \<open>forEach\<close> that deletes its \<open>undefined\<close> entries.
\<close>

definition mcpEnv_literal ::
  "'j LifeRhythmAgent \<Rightarrow> (jsstring \<rightharpoonup> jsstring) \<Rightarrow> (jsstring \<times> jsstring option) list" where
  "mcpEnv_literal ag process_env =
     [(ascii ''PATH'', process_env (ascii ''PATH'')),
      (ascii ''HOME'', process_env (ascii ''HOME'')),
      (ascii ''NODE_ENV'', Some (or_else (process_env (ascii ''NODE_ENV'')) (ascii ''production''))),
      (ascii ''LIFERHYTHM_SHEET_ID'', Some (sheetId ag)),
      (ascii ''GOOGLE_APPLICATION_CREDENTIALS'', process_env (ascii ''GOOGLE_APPLICATION_CREDENTIALS'')),
      (ascii ''GOOGLE_SERVICE_ACCOUNT_EMAIL'', process_env (ascii ''GOOGLE_SERVICE_ACCOUNT_EMAIL'')),
      (ascii ''GOOGLE_PRIVATE_KEY'', process_env (ascii ''GOOGLE_PRIVATE_KEY''))]"

fun strip_undefined :: "('k \<times> 'v option) list \<Rightarrow> ('k \<times> 'v) list" where
  "strip_undefined [] = []"
| "strip_undefined ((k, None) # kvs) = strip_undefined kvs"
| "strip_undefined ((k, Some v) # kvs) = (k, v) # strip_undefined kvs"

definition mcpEnv ::
  "'j LifeRhythmAgent \<Rightarrow> (jsstring \<rightharpoonup> jsstring) \<Rightarrow> (jsstring \<times> jsstring) list" where
  "mcpEnv ag process_env = strip_undefined (mcpEnv_literal ag process_env)"

definition allow_list :: "jsstring set" where
  "allow_list = ascii ` {''PATH'', ''HOME'', ''NODE_ENV'', ''LIFERHYTHM_SHEET_ID'',
     ''GOOGLE_APPLICATION_CREDENTIALS'', ''GOOGLE_SERVICE_ACCOUNT_EMAIL'', ''GOOGLE_PRIVATE_KEY''}"

text \<open>The keys of the literal whose value is read from \<open>process.env\<close> as it is.\<close>

definition pass_through :: "jsstring set" where
  "pass_through = ascii ` {''PATH'', ''HOME'', ''GOOGLE_APPLICATION_CREDENTIALS'',
     ''GOOGLE_SERVICE_ACCOUNT_EMAIL'', ''GOOGLE_PRIVATE_KEY''}"

text \<open>
  \<open>connect\<close> assigns \<open>this.mcpClient\<close> before the transport is connected, so the field is
  set also when \<open>connect\<close> or \<open>listTools\<close> rejects.
\<close>

definition connect ::
  "('w, 'j, 'r, 'e) host \<Rightarrow> (jsstring \<rightharpoonup> jsstring) \<Rightarrow> ('w, 'j, 'r, 'e) machine
     \<Rightarrow> ('e failure + 'j tool list) \<times> ('w, 'j, 'r, 'e) machine" where
  "connect h process_env m =
     (case new_Client h (world m) of
        (c, w0) \<Rightarrow>
          (let m0 = m\<lparr>this := (this m)\<lparr>mcpClient := Some c\<rparr>, world := w0\<rparr>;
               tr = \<lparr>command = ascii ''node'', args = [ascii ''index.js''],
                     cwd = mcpServerPath (this m0), env = mcpEnv (this m0) process_env\<rparr>
           in case Client_connect h c tr (world m0) of
                (Inl e, w1) \<Rightarrow>
                  (Inl (Rejected e), m0\<lparr>world := w1, trace := trace m0 @ [Connect c tr (Inl e)]\<rparr>)
              | (Inr u, w1) \<Rightarrow>
                  (let m1 = m0\<lparr>world := w1, trace := trace m0 @ [Connect c tr (Inr u)]\<rparr>
                   in case Client_listTools h c (world m1) of
                        (Inl e, w2) \<Rightarrow>
                          (Inl (Rejected e),
                           m1\<lparr>world := w2, trace := trace m1 @ [ListTools c (Inl e)]\<rparr>)
                      | (Inr ts, w2) \<Rightarrow>
                          (let m2 = m1\<lparr>world := w2, trace := trace m1 @ [ListTools c (Inr ts)]\<rparr>;
                               tls = map (\<lambda>t. Tool (info_name t) (info_description t) (inputSchema t)) ts
                           in (Inr tls, m2\<lparr>this := (this m2)\<lparr>tools := tls\<rparr>\<rparr>)))))"

text \<open>
  \<open>disconnect\<close>: when \<open>close\<close> rejects, the assignment of \<open>null\<close> is not reached.
\<close>

definition disconnect ::
  "('w, 'j, 'r, 'e) host \<Rightarrow> ('w, 'j, 'r, 'e) machine
     \<Rightarrow> ('e failure + unit) \<times> ('w, 'j, 'r, 'e) machine" where
  "disconnect h m =
     (case mcpClient (this m) of
        None \<Rightarrow> (Inr (), m)
      | Some c \<Rightarrow>
          (case Client_close h c (world m) of
             (Inl e, w1) \<Rightarrow>
               (Inl (Rejected e), m\<lparr>world := w1, trace := trace m @ [Close c (Inl e)]\<rparr>)
           | (Inr u, w1) \<Rightarrow>
               (Inr (), m\<lparr>this := (this m)\<lparr>mcpClient := None\<rparr>, world := w1,
                          trace := trace m @ [Close c (Inr u)]\<rparr>)))"

text \<open>\<open>await agent.disconnect(); await agent.disconnect();\<close>: a rejection ends the sequence.\<close>

definition disconnect_twice ::
  "('w, 'j, 'r, 'e) host \<Rightarrow> ('w, 'j, 'r, 'e) machine
     \<Rightarrow> ('e failure + unit) \<times> ('w, 'j, 'r, 'e) machine" where
  "disconnect_twice h m =
     (case disconnect h m of
        (Inl e, m1) \<Rightarrow> (Inl e, m1)
      | (Inr u, m1) \<Rightarrow> disconnect h m1)"

subsection \<open>\<open>process\<close>\<close>

definition MAX_TURNS :: nat where
  "MAX_TURNS = 10"

text \<open>
  The locals of one call of \<open>process\<close>. They are returned with the outcome, also when the
  call fails, so that what they held at that moment can be stated.
\<close>

record ('j, 'r) session =
  messages :: "'j message list"
  actions :: "('j, 'r) action list"
  turns :: nat

text \<open>\<open>this.anthropic.messages.create({...})\<close> with the request \<open>process\<close> builds.\<close>

definition create ::
  "('w, 'j, 'r, 'e) host \<Rightarrow> 'j message list \<Rightarrow> ('w, 'j, 'r, 'e) machine
     \<Rightarrow> ('e + 'j response) \<times> ('w, 'j, 'r, 'e) machine" where
  "create h msgs m =
     (let req = Request (ascii ''claude-opus-4-6'') 4096 (SYSTEM_PROMPT h) (tools (this m)) msgs
      in case messages_create h req (world m) of
           (r, w1) \<Rightarrow> (r, m\<lparr>world := w1, trace := trace m @ [Create req r]\<rparr>))"

text \<open>The method \<open>_callTool\<close>.\<close>

definition callTool ::
  "('w, 'j, 'r, 'e) host \<Rightarrow> jsstring \<Rightarrow> 'j \<Rightarrow> ('w, 'j, 'r, 'e) machine
     \<Rightarrow> ('e failure + 'r) \<times> ('w, 'j, 'r, 'e) machine" where
  "callTool h toolName toolInput m =
     (case mcpClient (this m) of
        None \<Rightarrow> (Inl (Error (ascii ''Not connected to MCP server. Call connect() first.'')), m)
      | Some c \<Rightarrow>
          (case Client_callTool h c toolName toolInput (world m) of
             (r, w1) \<Rightarrow>
               (case r of Inl e \<Rightarrow> Inl (Rejected e) | Inr v \<Rightarrow> Inr v,
                m\<lparr>world := w1, trace := trace m @ [CallTool c toolName toolInput r]\<rparr>)))"

text \<open>
  The two filters on \<open>response.content\<close>: the texts of the \<open>text\<close> blocks, and the
  \<open>tool_use\<close> blocks as (id, name, input).
\<close>

fun textBlocks :: "'j block list \<Rightarrow> jsstring list" where
  "textBlocks [] = []"
| "textBlocks (Text t # bs) = t # textBlocks bs"
| "textBlocks (b # bs) = textBlocks bs"

fun toolUseBlocks :: "'j block list \<Rightarrow> (jsstring \<times> jsstring \<times> 'j) list" where
  "toolUseBlocks [] = []"
| "toolUseBlocks (ToolUse i n a # bs) = (i, n, a) # toolUseBlocks bs"
| "toolUseBlocks (b # bs) = toolUseBlocks bs"

text \<open>
  The \<open>for\<close> loop over the tool calls of one round, with the arrays \<open>actions\<close> and
  \<open>toolResults\<close> it pushes to. A failing \<open>_callTool\<close> ends it before the push.
\<close>

fun call_tools ::
  "('w, 'j, 'r, 'e) host \<Rightarrow> (jsstring \<times> jsstring \<times> 'j) list \<Rightarrow> ('w, 'j, 'r, 'e) machine
     \<Rightarrow> ('j, 'r) action list \<Rightarrow> tool_result list
     \<Rightarrow> 'e failure option \<times> ('w, 'j, 'r, 'e) machine \<times> ('j, 'r) action list \<times> tool_result list" where
  "call_tools h [] m acts trs = (None, m, acts, trs)"
| "call_tools h ((i, n, a) # tus) m acts trs =
     (case callTool h n a m of
        (Inl e, m1) \<Rightarrow> (Some e, m1, acts, trs)
      | (Inr res, m1) \<Rightarrow>
          call_tools h tus m1 (acts @ [\<lparr>tool = n, input = a, result = res\<rparr>])
            (trs @ [ToolResult i (JSON_stringify h res)]))"

text \<open>The condition under which a round ends the loop with a result.\<close>

definition terminal :: "'j response \<Rightarrow> bool" where
  "terminal r \<longleftrightarrow> stop_reason r = ascii ''end_turn'' \<or> toolUseBlocks (content r) = []"

text \<open>The \<open>while\<close> loop and the \<open>throw\<close> after it.\<close>

function loop ::
  "('w, 'j, 'r, 'e) host \<Rightarrow> ('w, 'j, 'r, 'e) machine \<Rightarrow> ('j, 'r) session
     \<Rightarrow> ('e failure + jsstring \<times> ('j, 'r) action list) \<times> ('w, 'j, 'r, 'e) machine \<times> ('j, 'r) session" where
  "loop h m s =
     (if turns s < MAX_TURNS then
        (let s1 = s\<lparr>turns := turns s + 1\<rparr>
         in case create h (messages s1) m of
              (Inl e, m1) \<Rightarrow> (Inl (Rejected e), m1, s1)
            | (Inr response, m1) \<Rightarrow>
                if stop_reason response = ascii ''end_turn'' \<or> toolUseBlocks (content response) = []
                then (Inr (trim (join [] (textBlocks (content response))), actions s1), m1, s1)
                else
                  (let s2 = s1\<lparr>messages := messages s1 @ [Message assistant (Blocks (content response))]\<rparr>
                   in case call_tools h (toolUseBlocks (content response)) m1 (actions s2) [] of
                        (Some e, m2, acts, trs) \<Rightarrow> (Inl e, m2, s2\<lparr>actions := acts\<rparr>)
                      | (None, m2, acts, trs) \<Rightarrow>
                          loop h m2 (s2\<lparr>actions := acts,
                                        messages := messages s2 @ [Message user (Results trs)]\<rparr>)))
      else
        (Inl (Error (ascii ''Agent exceeded maximum turns ('' @ decimal MAX_TURNS
                      @ ascii ''). Aborting to prevent runaway tool calls.'')), m, s))"
  by pat_completeness auto
termination
  by (relation "measure (\<lambda>(h, m, s). MAX_TURNS - turns s)") auto

declare loop.simps [simp del]

text \<open>
  \<open>process\<close>. An invalid \<open>now\<close> makes \<open>formatDateContext\<close> raise before the locals exist;
  the session returned then is the empty one.
\<close>

definition process ::
  "('w, 'j, 'r, 'e) host \<Rightarrow> jsstring \<Rightarrow> int option \<Rightarrow> ('w, 'j, 'r, 'e) machine
     \<Rightarrow> ('e failure + jsstring \<times> ('j, 'r) action list) \<times> ('w, 'j, 'r, 'e) machine \<times> ('j, 'r) session" where
  "process h inp now m =
     (case formatDateContext h now of
        Inl e \<Rightarrow> (Inl (Exception e), m, \<lparr>messages = [], actions = [], turns = 0\<rparr>)
      | Inr dateContext \<Rightarrow>
          (let userMessage = dateContext @ [0xA, 0xA] @ inp
           in loop h m \<lparr>messages = [Message user (Str userMessage)], actions = [], turns = 0\<rparr>))"

subsection \<open>Reading a trace\<close>

text \<open>
  The events a call added to the trace; the answers of its calls to the decision service
  and the responses among them; its calls to the peer's \<open>callTool\<close> as (name, arguments,
  answer); what an entry of the action log says of such a call; and the (name, arguments)
  a response asks for.
\<close>

definition new_events ::
  "('w, 'j, 'r, 'e) machine \<Rightarrow> ('w, 'j, 'r, 'e) machine \<Rightarrow> ('j, 'r, 'e) event list" where
  "new_events m m' = drop (length (trace m)) (trace m')"

fun creates :: "('j, 'r, 'e) event list \<Rightarrow> ('e + 'j response) list" where
  "creates [] = []"
| "creates (Create req x # ev) = x # creates ev"
| "creates (e # ev) = creates ev"

fun responses :: "('j, 'r, 'e) event list \<Rightarrow> 'j response list" where
  "responses [] = []"
| "responses (Create req (Inr r) # ev) = r # responses ev"
| "responses (e # ev) = responses ev"

fun tool_events :: "('j, 'r, 'e) event list \<Rightarrow> (jsstring \<times> 'j \<times> ('e + 'r)) list" where
  "tool_events [] = []"
| "tool_events (CallTool c n a x # ev) = (n, a, x) # tool_events ev"
| "tool_events (e # ev) = tool_events ev"

definition logged :: "('j, 'r) action \<Rightarrow> jsstring \<times> 'j \<times> ('e + 'r)" where
  "logged a = (tool a, input a, Inr (result a))"

definition requested :: "'j response \<Rightarrow> (jsstring \<times> 'j) list" where
  "requested r = map (\<lambda>(i, n, a). (n, a)) (toolUseBlocks (content r))"

text \<open>The request \<open>process\<close> sends for a list of messages.\<close>

abbreviation (input) the_request ::
  "('w, 'j, 'r, 'e) host \<Rightarrow> ('w, 'j, 'r, 'e) machine \<Rightarrow> 'j message list \<Rightarrow> 'j request" where
  "the_request h m msgs \<equiv>
     Request (ascii ''claude-opus-4-6'') 4096 (SYSTEM_PROMPT h) (tools (this m)) msgs"

section \<open>Concrete inputs\<close>

text \<open>A widget state at the cap: a chart with one dataset and twenty points, rates 0 to 19.\<close>

definition widget20 :: "nat widget" where
  "widget20 =
     \<lparr>currentRate = 99, previousRate = 98,
      chart = Some \<lparr>labels = [], datasets = [\<lparr>data = []\<rparr>]\<rparr>,
      historicalData = map (\<lambda>i. \<lparr>time = ascii ''t'', rate = i\<rparr>)
        [0, 1, 2, 3, 4, 5, 6, 7, 8, 9, 10, 11, 12, 13, 14, 15, 16, 17, 18, 19]\<rparr>"

text \<open>
  A host for concrete runs, in UTC. The world is the script of the decision service: each
  \<open>create\<close> answers with its next response, and rejects with 0 once the script is used up.
  The peer rejects a tool call whose argument is 0 with 7 and answers any other with the
  argument plus 100.
\<close>

definition scripted :: "(nat response list, nat, nat, nat) host" where
  "scripted =
     \<lparr>LocalTZA = (\<lambda>t u. 0), toLocaleDateString = (\<lambda>t. ascii ''a day''),
      SYSTEM_PROMPT = ascii ''system'',
      messages_create = (\<lambda>req w. case w of [] \<Rightarrow> (Inl 0, []) | r # rs \<Rightarrow> (Inr r, rs)),
      new_Client = (\<lambda>w. (1, w)),
      Client_connect = (\<lambda>c tr w. (Inr (), w)),
      Client_listTools =
        (\<lambda>c w. (Inr [ToolInfo (ascii ''create_item'') (ascii ''Create an item'') 0], w)),
      Client_callTool = (\<lambda>c n a w. (if a = 0 then Inl 7 else Inr (a + 100), w)),
      Client_close = (\<lambda>c w. (Inr (), w)),
      JSON_stringify = decimal\<rparr>"

text \<open>A newly constructed agent, and the same agent after a \<open>connect\<close>.\<close>

definition fresh :: "nat response list \<Rightarrow> (nat response list, nat, nat, nat) machine" where
  "fresh script =
     \<lparr>this = new_LifeRhythmAgent (ascii ''/srv/mcp'') (ascii ''sheet-1''), world = script, trace = []\<rparr>"

definition connected :: "nat response list \<Rightarrow> (nat response list, nat, nat, nat) machine" where
  "connected script = snd (connect scripted Map.empty (fresh script))"

text \<open>Two ambient environments that differ in a variable outside the allow-list only.\<close>

definition ambient1 :: "jsstring \<rightharpoonup> jsstring" where
  "ambient1 = map_of [(ascii ''PATH'', ascii ''/usr/bin''), (ascii ''ANTHROPIC_API_KEY'', ascii ''sk-1'')]"

definition ambient2 :: "jsstring \<rightharpoonup> jsstring" where
  "ambient2 = map_of [(ascii ''PATH'', ascii ''/usr/bin''), (ascii ''ANTHROPIC_API_KEY'', ascii ''sk-2'')]"

text \<open>
  The instant 2026-02-18T12:00:00Z is 1771416000000. Two hosts for it: one in UTC, one at
  UTC+13 (New Zealand in February), where that instant is Thursday the 19th, 01:00. Each
  has the string its \<open>Intl\<close> gives for that instant.
\<close>

definition nzdt :: timezone where
  "nzdt = (\<lambda>t u. 46800000)"

definition auckland :: intl where
  "auckland = \<lparr>LocalTZA = nzdt, toLocaleDateString = (\<lambda>t. ascii ''Thursday, February 19, 2026'')\<rparr>"

definition greenwich :: intl where
  "greenwich =
     \<lparr>LocalTZA = (\<lambda>t u. 0), toLocaleDateString = (\<lambda>t. ascii ''Wednesday, February 18, 2026'')\<rparr>"

text \<open>
  The date context of the scripted host for the instant 0, and responses for the script:
  \<open>more\<close> asks for one tool call, \<open>pair\<close> for two, \<open>failing\<close> for three of which the peer
  rejects the second, \<open>rejecting\<close> for one that the peer rejects; \<open>finished\<close> ends the
  turn with two texts, and \<open>eager\<close> ends the turn and asks for a tool call all the same.
\<close>

definition epoch_context :: jsstring where
  "epoch_context = join [0xA] (map ascii
       [''[DATE CONTEXT]'',
        ''Today is a day (1970-01-01).'',
        ''Recent dates for reference:'',
        ''  Sunday: 1969-12-28'',
        ''  Monday: 1969-12-29'',
        ''  Tuesday: 1969-12-30'',
        ''  Wednesday: 1969-12-31'',
        ''  Thursday: 1970-01-01'',
        ''  Friday: 1969-12-26'',
        ''  Saturday: 1969-12-27'',
        ''[/DATE CONTEXT]''])"

definition more :: "nat response" where
  "more = Response (ascii ''tool_use'') [ToolUse (ascii ''tu_1'') (ascii ''create_item'') 5]"

definition stubborn :: "nat response list" where
  "stubborn = [more, more, more, more, more, more, more, more, more, more]"

definition finished :: "nat response" where
  "finished = Response (ascii ''end_turn'') [Text (ascii ''  All ''), Other (ascii ''thinking''), Text (ascii ''done. '')]"

definition eager :: "nat response" where
  "eager = Response (ascii ''end_turn'') [Text (ascii ''Done.''), ToolUse (ascii ''tu_9'') (ascii ''create_item'') 5]"

definition pair :: "nat response" where
  "pair = Response (ascii ''tool_use'')
     [Text (ascii ''ok''), ToolUse (ascii ''tu_1'') (ascii ''create_item'') 5,
      ToolUse (ascii ''tu_2'') (ascii ''add_reminder'') 7]"

definition failing :: "nat response" where
  "failing = Response (ascii ''tool_use'')
     [ToolUse (ascii ''tu_1'') (ascii ''create_item'') 5, ToolUse (ascii ''tu_2'') (ascii ''create_item'') 0,
      ToolUse (ascii ''tu_3'') (ascii ''add_reminder'') 9]"

definition rejecting :: "nat response" where
  "rejecting = Response (ascii ''tool_use'') [ToolUse (ascii ''tu_1'') (ascii ''create_item'') 0]"

text \<open>
  One call of \<open>process\<close> on a connected agent and on a new one, and a second call on the
  agent the first one leaves.
\<close>

definition run_connected ::
  "nat response list \<Rightarrow> (nat failure + jsstring \<times> (nat, nat) action list)
     \<times> (nat response list, nat, nat, nat) machine \<times> (nat, nat) session" where
  "run_connected script = process scripted (ascii ''hi'') (Some 0) (connected script)"

definition run_fresh ::
  "nat response list \<Rightarrow> (nat failure + jsstring \<times> (nat, nat) action list)
     \<times> (nat response list, nat, nat, nat) machine \<times> (nat, nat) session" where
  "run_fresh script = process scripted (ascii ''hi'') (Some 0) (fresh script)"

definition run_again ::
  "nat response list \<Rightarrow> (nat failure + jsstring \<times> (nat, nat) action list)
     \<times> (nat response list, nat, nat, nat) machine \<times> (nat, nat) session" where
  "run_again script = process scripted (ascii ''again'') (Some 0) (fst (snd (run_connected script)))"

section \<open>Properties of the widget\<close>

text \<open>Evaluating a \<open>let\<close> takes its bound value first.\<close>

lemma let_weak: "a = b \<Longrightarrow> Let a f = Let b f"
  by simp

lemma updateChart_history:
  "historicalData (snd (updateChart lbl st)) =
     (if length (historicalData st) < 20 then historicalData st else tl (historicalData st))
       @ [\<lparr>time = lbl, rate = currentRate st\<rparr>]"
  by (cases "historicalData st") (auto simp: updateChart_def Let_def split: option.splits list.splits)

text \<open>
  The history starts empty and \<open>updateChart\<close> is the only function that writes it, so it
  never holds more than 20 points, whatever is polled.
\<close>

lemma polls_history_le_20:
  "length (historicalData st) \<le> 20 \<Longrightarrow> length (historicalData (polls ps st)) \<le> 20"
proof (induction ps arbitrary: st)
  case Nil
  then show ?case by simp
next
  case (Cons p ps)
  obtain lbl r where p: "p = (lbl, r)" by (cases p)
  have "length (historicalData (snd (updateChart lbl (st\<lparr>currentRate := r\<rparr>)))) \<le> 20"
    using Cons.prems by (simp add: updateChart_history)
  then show ?case using Cons.IH p by simp
qed

text \<open>
  C10. On a history of at most 20 points (which every history the widget builds is),
  \<open>updateChart\<close> leaves at most 20: it appends the new point, and drops the oldest one
  exactly when there were 20 already, so the newest point stays and the others keep their
  order. When the chart exists and has a dataset the call succeeds, and then the chart's
  labels and the data of its first dataset are the times and the rates of the history.
\<close>

theorem updateChart_keeps_last_20:
  assumes "length (historicalData st) \<le> 20"
      and "updateChart lbl st = (r, st')"
  shows "length (historicalData st') \<le> 20
       \<and> historicalData st' =
           (if length (historicalData st) < 20 then historicalData st
            else tl (historicalData st)) @ [\<lparr>time = lbl, rate = currentRate st\<rparr>]
       \<and> (r = None \<longleftrightarrow> (\<exists>ch ds rest. chart st = Some ch \<and> datasets ch = ds # rest))
       \<and> (r = None \<longrightarrow>
            (\<exists>ch ds rest. chart st' = Some ch \<and> datasets ch = ds # rest
               \<and> labels ch = map time (historicalData st')
               \<and> data ds = map rate (historicalData st')))"
proof -
  have h: "historicalData st' =
     (if length (historicalData st) < 20 then historicalData st else tl (historicalData st))
       @ [\<lparr>time = lbl, rate = currentRate st\<rparr>]"
    using updateChart_history [of lbl st] assms(2) by simp
  have l: "length (historicalData st') \<le> 20" using assms(1) h by auto
  have c: "(r = None \<longleftrightarrow> (\<exists>ch ds rest. chart st = Some ch \<and> datasets ch = ds # rest))"
    using assms(2) by (auto simp: updateChart_def Let_def split: option.splits list.splits)
  have m: "r = None \<longrightarrow>
            (\<exists>ch ds rest. chart st' = Some ch \<and> datasets ch = ds # rest
               \<and> labels ch = map time (historicalData st')
               \<and> data ds = map rate (historicalData st'))"
    using assms(2) by (auto simp: updateChart_def Let_def split: option.splits list.splits)
  from h l c m show ?thesis by blast
qed

theorem updateChart_keeps_last_20_witness:
  "length (historicalData widget20) = 20
   \<and> fst (updateChart (ascii ''now'') widget20) = None
   \<and> map rate (historicalData (snd (updateChart (ascii ''now'') widget20)))
       = [1, 2, 3, 4, 5, 6, 7, 8, 9, 10, 11, 12, 13, 14, 15, 16, 17, 18, 19, 99]
   \<and> map data (case chart (snd (updateChart (ascii ''now'') widget20)) of
                   None \<Rightarrow> [] | Some ch \<Rightarrow> datasets ch)
       = [[1, 2, 3, 4, 5, 6, 7, 8, 9, 10, 11, 12, 13, 14, 15, 16, 17, 18, 19, 99]]"
  using updateChart_keeps_last_20 [of widget20 "ascii ''now''"
      "fst (updateChart (ascii ''now'') widget20)" "snd (updateChart (ascii ''now'') widget20)"]
  by (simp add: widget20_def updateChart_def Let_def cong: let_weak)

section \<open>Properties of the agent\<close>

subsection \<open>Traces and single steps\<close>

lemma creates_append [simp]: "creates (a @ b) = creates a @ creates b"
  by (induction a rule: creates.induct) auto
lemma responses_append [simp]: "responses (a @ b) = responses a @ responses b"
  by (induction a rule: responses.induct) auto
lemma tool_events_append [simp]: "tool_events (a @ b) = tool_events a @ tool_events b"
  by (induction a rule: tool_events.induct) auto

lemma new_events_append [simp]: "trace m' = trace m @ ev \<Longrightarrow> new_events m m' = ev"
  by (simp add: new_events_def)

lemma create_facts:
  assumes "create h msgs m = (x, m1)"
  shows "this m1 = this m"
    and "trace m1 = trace m @ [Create (Request (ascii ''claude-opus-4-6'') 4096 (SYSTEM_PROMPT h) (tools (this m)) msgs) x]"
  using assms by (auto simp: create_def Let_def split: prod.splits)

lemma callTool_this: "callTool h n a m = (x, m1) \<Longrightarrow> this m1 = this m"
  by (auto simp: callTool_def split: option.splits prod.splits)

lemma callTool_None:
  "mcpClient (this m) = None \<Longrightarrow>
   callTool h n a m = (Inl (Error (ascii ''Not connected to MCP server. Call connect() first.'')), m)"
  by (simp add: callTool_def)

lemma callTool_Some:
  assumes "mcpClient (this m) = Some c" "callTool h n a m = (x, m1)"
  shows "\<exists>y. trace m1 = trace m @ [CallTool c n a y] \<and> x = (case y of Inl e \<Rightarrow> Inl (Rejected e) | Inr v \<Rightarrow> Inr v)"
  using assms by (auto simp: callTool_def split: prod.splits)

lemma call_tools_this:
  "call_tools h tus m acts trs = (eo, m', acts', trs') \<Longrightarrow> this m' = this m"
proof (induction h tus m acts trs rule: call_tools.induct)
  case (1 h m acts trs)
  then show ?case by simp
next
  case (2 h i n a tus m acts trs)
  then show ?case
    by (auto split: prod.splits sum.splits dest: callTool_this)
qed

lemma loop_cases [consumes 1, case_names MaxTurns CreateFails Terminal ToolFails Continue]:
  fixes P :: "('w, 'j, 'r, 'e) machine \<Rightarrow> ('j, 'r) session
     \<Rightarrow> ('e failure + jsstring \<times> ('j, 'r) action list)
     \<Rightarrow> ('w, 'j, 'r, 'e) machine \<Rightarrow> ('j, 'r) session \<Rightarrow> bool"
  assumes run: "loop h m s = (out, m', s')"
    and MaxTurns: "\<And>m s. \<not> turns s < MAX_TURNS \<Longrightarrow>
      P m s (Inl (Error (ascii ''Agent exceeded maximum turns ('' @ decimal MAX_TURNS
                      @ ascii ''). Aborting to prevent runaway tool calls.''))) m s"
    and CreateFails: "\<And>m s e m1. turns s < MAX_TURNS \<Longrightarrow> create h (messages s) m = (Inl e, m1) \<Longrightarrow>
      P m s (Inl (Rejected e)) m1 (s\<lparr>turns := turns s + 1\<rparr>)"
    and Terminal: "\<And>m s r m1. turns s < MAX_TURNS \<Longrightarrow> create h (messages s) m = (Inr r, m1) \<Longrightarrow>
      terminal r \<Longrightarrow>
      P m s (Inr (trim (join [] (textBlocks (content r))), actions s)) m1 (s\<lparr>turns := turns s + 1\<rparr>)"
    and ToolFails: "\<And>m s r m1 e m2 acts trs. turns s < MAX_TURNS \<Longrightarrow>
      create h (messages s) m = (Inr r, m1) \<Longrightarrow> \<not> terminal r \<Longrightarrow>
      call_tools h (toolUseBlocks (content r)) m1 (actions s) [] = (Some e, m2, acts, trs) \<Longrightarrow>
      P m s (Inl e) m2
        (s\<lparr>turns := turns s + 1, messages := messages s @ [Message assistant (Blocks (content r))],
           actions := acts\<rparr>)"
    and Continue: "\<And>m s r m1 m2 acts trs out m' s'. turns s < MAX_TURNS \<Longrightarrow>
      create h (messages s) m = (Inr r, m1) \<Longrightarrow> \<not> terminal r \<Longrightarrow>
      call_tools h (toolUseBlocks (content r)) m1 (actions s) [] = (None, m2, acts, trs) \<Longrightarrow>
      loop h m2 (s\<lparr>turns := turns s + 1, actions := acts,
                   messages := messages s @ [Message assistant (Blocks (content r)), Message user (Results trs)]\<rparr>) = (out, m', s') \<Longrightarrow>
      P m2 (s\<lparr>turns := turns s + 1, actions := acts,
                   messages := messages s @ [Message assistant (Blocks (content r)), Message user (Results trs)]\<rparr>) out m' s' \<Longrightarrow>
      P m s out m' s'"
  shows "P m s out m' s'"
  using run
proof (induction "MAX_TURNS - turns s" arbitrary: m s out m' s' rule: less_induct)
  case less
  note prems = less.prems
  show ?case
  proof (cases "turns s < MAX_TURNS")
    case False
    with prems have "out = Inl (Error (ascii ''Agent exceeded maximum turns ('' @ decimal MAX_TURNS
                      @ ascii ''). Aborting to prevent runaway tool calls.''))" "m' = m" "s' = s"
      by (auto simp add: loop.simps[of h m s])
    then show ?thesis using MaxTurns[OF False, of m] by blast
  next
    case True
    obtain x m1 where c: "create h (messages s) m = (x, m1)" by (cases "create h (messages s) m")
    show ?thesis
    proof (cases x)
      case (Inl e)
      with True c prems have eqs: "out = Inl (Rejected e)" "m' = m1" "s' = s\<lparr>turns := turns s + 1\<rparr>"
        by (auto simp add: loop.simps[of h m s])
      from c Inl have c': "create h (messages s) m = (Inl e, m1)" by simp
      show ?thesis unfolding eqs by (rule CreateFails[OF True c'])
    next
      case (Inr r)
      show ?thesis
      proof (cases "terminal r")
        case t: True
        with True c Inr prems have eqs:
          "out = Inr (trim (join [] (textBlocks (content r))), actions s)" "m' = m1"
          "s' = s\<lparr>turns := turns s + 1\<rparr>"
          by (auto simp add: loop.simps[of h m s] terminal_def)
        from c Inr have c': "create h (messages s) m = (Inr r, m1)" by simp
        show ?thesis unfolding eqs by (rule Terminal[OF True c' t])
      next
        case nt: False
        from c Inr have c': "create h (messages s) m = (Inr r, m1)" by simp
        obtain eo m2 acts trs where ct:
          "call_tools h (toolUseBlocks (content r)) m1 (actions s) [] = (eo, m2, acts, trs)"
          by (cases "call_tools h (toolUseBlocks (content r)) m1 (actions s) []") auto
        show ?thesis
        proof (cases eo)
          case (Some e)
          with True c Inr nt ct prems have eqs: "out = Inl e" "m' = m2"
            "s' = s\<lparr>turns := turns s + 1,
                  messages := messages s @ [Message assistant (Blocks (content r))], actions := acts\<rparr>"
            by (auto simp add: loop.simps[of h m s] terminal_def)
          from ct Some have ct': "call_tools h (toolUseBlocks (content r)) m1 (actions s) [] = (Some e, m2, acts, trs)"
            by simp
          show ?thesis unfolding eqs by (rule ToolFails[OF True c' nt ct'])
        next
          case None
          let ?s3 = "s\<lparr>turns := turns s + 1, actions := acts,
                   messages := messages s @ [Message assistant (Blocks (content r)), Message user (Results trs)]\<rparr>"
          have run3: "loop h m2 ?s3 = (out, m', s')"
            using True c Inr nt ct None prems
            by (auto simp add: loop.simps[of h m s] terminal_def)
          have ih: "P m2 ?s3 out m' s'"
            by (rule less.hyps[OF _ run3]) (use True in simp)
          from ct None have ct': "call_tools h (toolUseBlocks (content r)) m1 (actions s) [] = (None, m2, acts, trs)"
            by simp
          show ?thesis
            by (rule Continue[OF True c' nt ct' run3 ih])
        qed
      qed
    qed
  qed
qed

subsection \<open>\<open>connect\<close> and \<open>disconnect\<close>\<close>

lemma unat_ascii_char: "unat (of_nat (of_char c) :: 16 word) = of_char c"
proof -
  have "(of_char c :: nat) < 256" by simp
  also have "(256 :: nat) < 2 ^ 16" by simp
  finally show ?thesis by (simp add: unat_of_nat)
qed

lemma unat_ascii: "map unat (ascii s) = map of_char s"
  by (simp add: ascii_def unat_ascii_char)

lemma ascii_inj: "inj ascii"
proof (rule injI)
  fix a b assume "ascii a = ascii b"
  then have "map unat (ascii a) = map unat (ascii b)" by simp
  then have "map (of_char :: char \<Rightarrow> nat) a = map of_char b" by (simp add: unat_ascii)
  then show "a = b" by (simp add: inj_map_eq_map[OF inj_of_char])
qed

lemma ascii_eq_iff [simp]: "ascii a = ascii b \<longleftrightarrow> a = b"
  using ascii_inj by (auto dest: injD)

lemma strip_undefined_keys: "fst ` set (strip_undefined kvs) \<subseteq> fst ` set kvs"
  by (induction kvs rule: strip_undefined.induct) auto

lemma map_of_strip_undefined:
  "distinct (map fst kvs) \<Longrightarrow>
   map_of (strip_undefined kvs) k = (case map_of kvs k of None \<Rightarrow> None | Some v \<Rightarrow> v)"
proof (induction kvs rule: strip_undefined.induct)
  case 1
  then show ?case by simp
next
  case (2 k' kvs)
  show ?case
  proof (cases "k = k'")
    case True
    with 2 have "k \<notin> fst ` set (strip_undefined kvs)"
      using strip_undefined_keys[of kvs] by auto
    then have "map_of (strip_undefined kvs) k = None"
      by (simp add: map_of_eq_None_iff)
    with True show ?thesis by simp
  next
    case False
    with 2 show ?thesis by simp
  qed
next
  case (3 k' v kvs)
  then show ?case by simp
qed

lemma mcpEnv_lookup:
  "map_of (mcpEnv ag penv) k =
     (if k = ascii ''NODE_ENV'' then Some (or_else (penv (ascii ''NODE_ENV'')) (ascii ''production''))
      else if k = ascii ''LIFERHYTHM_SHEET_ID'' then Some (sheetId ag)
      else if k \<in> pass_through then penv k else None)"
proof -
  have d: "distinct (map fst (mcpEnv_literal ag penv))"
    by (simp add: mcpEnv_literal_def)
  show ?thesis
    unfolding mcpEnv_def map_of_strip_undefined[OF d]
    by (simp add: mcpEnv_literal_def pass_through_def)
qed

lemma mcpEnv_literal_keys: "fst ` set (mcpEnv_literal ag penv) \<subseteq> allow_list"
  unfolding mcpEnv_literal_def allow_list_def list.set image_insert fst_conv image_empty
  by (rule subset_refl)

lemma mcpEnv_keys: "fst ` set (mcpEnv ag penv) \<subseteq> allow_list"
  unfolding mcpEnv_def by (rule order_trans[OF strip_undefined_keys mcpEnv_literal_keys])

lemma mcpEnv_noninterference:
  "\<forall>k\<in>allow_list. penv' k = penv k \<Longrightarrow> mcpEnv ag penv' = mcpEnv ag penv"
  by (simp add: mcpEnv_def mcpEnv_literal_def allow_list_def)

lemma connect_trace:
  assumes "connect h penv m = (r, m')"
  shows "\<exists>c x rest. new_events m m' =
            Connect c \<lparr>command = ascii ''node'', args = [ascii ''index.js''],
                       cwd = mcpServerPath (this m), env = mcpEnv (this m) penv\<rparr> x # rest
          \<and> (rest = [] \<or> (\<exists>y. rest = [ListTools c y]))"
  using assms
  by (auto simp: connect_def Let_def new_events_def mcpEnv_def mcpEnv_literal_def
      split: prod.splits sum.splits)

lemma connected_eq:
  "connected script =
     \<lparr>this = \<lparr>mcpServerPath = ascii ''/srv/mcp'', sheetId = ascii ''sheet-1'', mcpClient = Some 1,
              tools = [Tool (ascii ''create_item'') (ascii ''Create an item'') 0]\<rparr>,
      world = script,
      trace = [Connect 1 \<lparr>command = ascii ''node'', args = [ascii ''index.js''],
                 cwd = ascii ''/srv/mcp'',
                 env = [(ascii ''NODE_ENV'', ascii ''production''),
                        (ascii ''LIFERHYTHM_SHEET_ID'', ascii ''sheet-1'')]\<rparr> (Inr ()),
               ListTools 1 (Inr [ToolInfo (ascii ''create_item'') (ascii ''Create an item'') 0])]\<rparr>"
  by (simp add: connected_def connect_def scripted_def fresh_def new_LifeRhythmAgent_def
      mcpEnv_def mcpEnv_literal_def or_else_def Let_def cong: let_weak)

text \<open>
  C7, as the code has it. The transport \<open>connect\<close> hands to the client carries the
  environment \<open>mcpEnv\<close> and nothing else of \<open>process.env\<close>. Its keys are in the allow-list.
  \<open>NODE_ENV\<close> is always there (the ambient value, or \<open>production\<close> when that is undefined or
  empty) and so is \<open>LIFERHYTHM_SHEET_ID\<close> (the agent's \<open>sheetId\<close>); each of the other five
  keys is there with its ambient value exactly when that is defined. Two ambient
  environments that agree on the allow-list give the same environment.
\<close>

theorem connect_passes_allow_listed_env:
  assumes "connect h process_env m = (r, m')"
  shows "(\<exists>c x rest. new_events m m' =
            Connect c \<lparr>command = ascii ''node'', args = [ascii ''index.js''],
                       cwd = mcpServerPath (this m), env = mcpEnv (this m) process_env\<rparr> x # rest
          \<and> (rest = [] \<or> (\<exists>y. rest = [ListTools c y])))
       \<and> fst ` set (mcpEnv (this m) process_env) \<subseteq> allow_list
       \<and> (\<forall>k. map_of (mcpEnv (this m) process_env) k =
              (if k = ascii ''NODE_ENV''
               then Some (or_else (process_env (ascii ''NODE_ENV'')) (ascii ''production''))
               else if k = ascii ''LIFERHYTHM_SHEET_ID'' then Some (sheetId (this m))
               else if k \<in> pass_through then process_env k else None))
       \<and> (\<forall>other_env. (\<forall>k\<in>allow_list. other_env k = process_env k) \<longrightarrow>
              mcpEnv (this m) other_env = mcpEnv (this m) process_env)"
  using connect_trace[OF assms] mcpEnv_keys[of "this m" process_env]
    mcpEnv_lookup[of "this m" process_env] mcpEnv_noninterference[of _ process_env "this m"]
  by blast

theorem connect_passes_allow_listed_env_witness:
  "new_events (fresh []) (snd (connect scripted ambient1 (fresh []))) =
     [Connect 1 \<lparr>command = ascii ''node'', args = [ascii ''index.js''], cwd = ascii ''/srv/mcp'',
                 env = [(ascii ''PATH'', ascii ''/usr/bin''), (ascii ''NODE_ENV'', ascii ''production''),
                        (ascii ''LIFERHYTHM_SHEET_ID'', ascii ''sheet-1'')]\<rparr> (Inr ()),
      ListTools 1 (Inr [ToolInfo (ascii ''create_item'') (ascii ''Create an item'') 0])]
   \<and> ambient2 (ascii ''ANTHROPIC_API_KEY'') \<noteq> ambient1 (ascii ''ANTHROPIC_API_KEY'')
   \<and> mcpEnv (this (fresh [])) ambient2 = mcpEnv (this (fresh [])) ambient1"
proof -
  have agree: "\<forall>k\<in>allow_list. ambient2 k = ambient1 k"
    by (simp add: allow_list_def ambient1_def ambient2_def)
  have run: "new_events (fresh []) (snd (connect scripted ambient1 (fresh []))) =
     [Connect 1 \<lparr>command = ascii ''node'', args = [ascii ''index.js''], cwd = ascii ''/srv/mcp'',
                 env = [(ascii ''PATH'', ascii ''/usr/bin''), (ascii ''NODE_ENV'', ascii ''production''),
                        (ascii ''LIFERHYTHM_SHEET_ID'', ascii ''sheet-1'')]\<rparr> (Inr ()),
      ListTools 1 (Inr [ToolInfo (ascii ''create_item'') (ascii ''Create an item'') 0])]"
    by (simp add: connect_def scripted_def fresh_def new_LifeRhythmAgent_def new_events_def
        mcpEnv_def mcpEnv_literal_def or_else_def ambient1_def Let_def cong: let_weak)
  have differ: "ambient2 (ascii ''ANTHROPIC_API_KEY'') \<noteq> ambient1 (ascii ''ANTHROPIC_API_KEY'')"
    by (simp add: ambient1_def ambient2_def)
  note all = connect_passes_allow_listed_env
      [where h = scripted and process_env = ambient1 and m = "fresh []", OF surjective_pairing]
  have same: "mcpEnv (this (fresh [])) ambient2 = mcpEnv (this (fresh [])) ambient1"
    using all [THEN conjunct2, THEN conjunct2, THEN conjunct2, THEN spec, THEN mp, OF agree] .
  show ?thesis
    by (intro conjI run differ same)
qed

text \<open>
  The claim of C7 as written, that a key whose ambient value is undefined is removed, fails
  for two of the seven keys: from the empty environment the child still gets \<open>NODE_ENV\<close>
  and \<open>LIFERHYTHM_SHEET_ID\<close>.
\<close>

theorem mcpEnv_of_empty_environment:
  "mcpEnv (this (fresh [])) Map.empty =
     [(ascii ''NODE_ENV'', ascii ''production''), (ascii ''LIFERHYTHM_SHEET_ID'', ascii ''sheet-1'')]"
  by (simp add: mcpEnv_def mcpEnv_literal_def or_else_def fresh_def new_LifeRhythmAgent_def)

text \<open>
  C8. \<open>disconnect\<close> on an agent without a client returns at once and changes nothing, the
  world and the trace included. Calling it twice in a row ends as calling it once does:
  same outcome, same agent, same world, same calls made. After a \<open>disconnect\<close> that returns,
  \<open>mcpClient\<close> is \<open>null\<close>.
\<close>

theorem disconnect_idempotent:
  "(mcpClient (this m) = None \<longrightarrow> disconnect h m = (Inr (), m))
   \<and> disconnect_twice h m = disconnect h m
   \<and> (\<forall>m1. disconnect h m = (Inr (), m1) \<longrightarrow> mcpClient (this m1) = None)"
  by (auto simp: disconnect_def disconnect_twice_def split: option.splits prod.splits sum.splits)

theorem disconnect_idempotent_witness:
  "mcpClient (this (connected [])) = Some 1
   \<and> fst (disconnect scripted (connected [])) = Inr ()
   \<and> new_events (connected []) (snd (disconnect scripted (connected []))) = [Close 1 (Inr ())]
   \<and> mcpClient (this (snd (disconnect scripted (connected [])))) = None
   \<and> disconnect scripted (snd (disconnect scripted (connected []))) =
       (Inr (), snd (disconnect scripted (connected [])))
   \<and> disconnect_twice scripted (connected []) = disconnect scripted (connected [])"
proof -
  have once: "disconnect scripted (connected []) =
      (Inr (), (connected [])\<lparr>this := (this (connected []))\<lparr>mcpClient := None\<rparr>,
                  trace := trace (connected []) @ [Close 1 (Inr ())]\<rparr>)"
    by (simp add: disconnect_def connected_eq scripted_def)
  from disconnect_idempotent
         [of "snd (disconnect scripted (connected []))" scripted]
       disconnect_idempotent [of "connected []" scripted]
  show ?thesis
    using once by (simp add: connected_eq new_events_def)
qed

subsection \<open>\<open>formatDateContext\<close>\<close>

lemmas date_eval = toISOString_def isoYear_def YearFromTime_def MonthFromTime_def DateFromTime_def
  civil_from_days_def days_from_civil_def Day_def msPerDay_def TimeWithinDay_def WeekDay_def
  MakeDay_def MakeDate_def TimeClip_def LocalTime_def UTC_def getDay_def getDate_def setDate_def
  digit_def padded.simps split_T_0_def Let_def

lemma iso_example: "toISOString (Some 1771416000000) = Inr (ascii ''2026-02-18T12:00:00.000Z'')"
  by (simp add: date_eval ascii_def del: One_nat_def cong: let_weak)

lemma getDay_nzdt: "getDay nzdt 1771416000000 = 4"
  by (simp add: date_eval nzdt_def cong: let_weak)

lemma getDay_utc: "getDay (\<lambda>t u. 0) 1771416000000 = 3"
  by (simp add: date_eval cong: let_weak)

lemma recentWeekdays_auckland: "recentWeekdays nzdt 1771416000000 =
   Inr (map ascii [''Sunday: 2026-02-14'', ''Monday: 2026-02-15'', ''Tuesday: 2026-02-16'',
     ''Wednesday: 2026-02-17'', ''Thursday: 2026-02-18'', ''Friday: 2026-02-12'', ''Saturday: 2026-02-13''])"
  by (simp add: recentWeekdays_def getDay_nzdt weekdays_def recentWeekday_def date_eval nzdt_def ascii_def del: One_nat_def cong: let_weak)

lemma recentWeekdays_greenwich: "recentWeekdays (\<lambda>t u. 0) 1771416000000 =
   Inr (map ascii [''Sunday: 2026-02-15'', ''Monday: 2026-02-16'', ''Tuesday: 2026-02-17'',
     ''Wednesday: 2026-02-18'', ''Thursday: 2026-02-12'', ''Friday: 2026-02-13'', ''Saturday: 2026-02-14''])"
  by (simp add: recentWeekdays_def getDay_utc weekdays_def recentWeekday_def date_eval ascii_def del: One_nat_def cong: let_weak)



text \<open>
  In UTC the repository's tests hold: for 2026-02-18T12:00Z the output has
  \<open>Monday: 2026-02-16\<close> and \<open>Wednesday: 2026-02-18\<close>.
\<close>

lemma formatDateContext_greenwich:
  "formatDateContext greenwich (Some 1771416000000) =
     Inr (join [0xA] (map ascii
       [''[DATE CONTEXT]'',
        ''Today is Wednesday, February 18, 2026 (2026-02-18).'',
        ''Recent dates for reference:'',
        ''  Sunday: 2026-02-15'',
        ''  Monday: 2026-02-16'',
        ''  Tuesday: 2026-02-17'',
        ''  Wednesday: 2026-02-18'',
        ''  Thursday: 2026-02-12'',
        ''  Friday: 2026-02-13'',
        ''  Saturday: 2026-02-14'',
        ''[/DATE CONTEXT]'']))"
  by (simp add: formatDateContext_def greenwich_def recentWeekdays_greenwich iso_example split_T_0_def ascii_def)


text \<open>
  C4. \<open>getDay\<close> and \<open>setDate\<close> work in local time and \<open>toISOString\<close> prints UTC, so the
  lines depend on the host's time zone. At UTC+13 the same instant gives
  \<open>Monday: 2026-02-15\<close> and \<open>Wednesday: 2026-02-17\<close>, and a header whose two dates differ.
\<close>

theorem formatDateContext_auckland:
  "formatDateContext auckland (Some 1771416000000) =
     Inr (join [0xA] (map ascii
       [''[DATE CONTEXT]'',
        ''Today is Thursday, February 19, 2026 (2026-02-18).'',
        ''Recent dates for reference:'',
        ''  Sunday: 2026-02-14'',
        ''  Monday: 2026-02-15'',
        ''  Tuesday: 2026-02-16'',
        ''  Wednesday: 2026-02-17'',
        ''  Thursday: 2026-02-18'',
        ''  Friday: 2026-02-12'',
        ''  Saturday: 2026-02-13'',
        ''[/DATE CONTEXT]'']))"
  by (simp add: formatDateContext_def auckland_def recentWeekdays_auckland iso_example split_T_0_def ascii_def)

subsection \<open>\<open>process\<close>: the tool calls of one round\<close>

lemma new_events_refl [simp]: "new_events m m = []"
  by (simp add: new_events_def)

lemma call_tools_run:
  assumes "call_tools h tus m acts trs = (eo, m', acts', trs')"
  shows "\<exists>ev new. trace m' = trace m @ ev \<and> acts' = acts @ new \<and> creates ev = [] \<and> responses ev = []
     \<and> (case eo of
           None \<Rightarrow> tool_events ev = map logged new
                    \<and> map (\<lambda>(n, a, x). (n, a)) (tool_events ev) = map (\<lambda>(i, n, a). (n, a)) tus
                    \<and> (tus \<noteq> [] \<longrightarrow> mcpClient (this m) \<noteq> None)
         | Some f \<Rightarrow>
            (case mcpClient (this m) of
               None \<Rightarrow> f = Error (ascii ''Not connected to MCP server. Call connect() first.'') \<and> ev = [] \<and> new = []
             | Some c \<Rightarrow> \<exists>ev0 n a e. f = Rejected e \<and> ev = ev0 @ [CallTool c n a (Inl e)]
                           \<and> tool_events ev0 = map logged new))"
  using assms
proof (induction h tus m acts trs rule: call_tools.induct)
  case (1 h m acts trs)
  then show ?case by (intro exI[of _ "[]"]) simp
next
  case (2 h i n a tus m acts trs)
  obtain x m1 where ct: "callTool h n a m = (x, m1)" by (cases "callTool h n a m")
  show ?case
  proof (cases "mcpClient (this m)")
    case None
    with ct have "x = Inl (Error (ascii ''Not connected to MCP server. Call connect() first.''))" "m1 = m"
      by (simp_all add: callTool_None)
    with "2.prems" ct have eqs: "eo = Some (Error (ascii ''Not connected to MCP server. Call connect() first.''))"
      "m' = m" "acts' = acts" by auto
    show ?thesis unfolding eqs using None
      by (intro exI[of _ "[]"]) simp
  next
    case (Some c)
    from callTool_Some[OF Some ct] obtain y where
      tr1: "trace m1 = trace m @ [CallTool c n a y]"
      and x: "x = (case y of Inl e \<Rightarrow> Inl (Rejected e) | Inr v \<Rightarrow> Inr v)" by blast
    have this1: "this m1 = this m" using ct by (rule callTool_this)
    show ?thesis
    proof (cases y)
      case (Inl e)
      with "2.prems" ct x have eqs: "eo = Some (Rejected e)" "m' = m1" "acts' = acts" by auto
      show ?thesis unfolding eqs using tr1 Inl Some
        by (intro exI[of _ "[CallTool c n a (Inl e)]"] exI[of _ "[]"]) simp
    next
      case (Inr v)
      let ?act = "\<lparr>tool = n, input = a, result = v\<rparr>"
      have rec: "call_tools h tus m1 (acts @ [?act]) (trs @ [ToolResult i (JSON_stringify h v)]) = (eo, m', acts', trs')"
        using "2.prems" ct x Inr by simp
      from "2.IH"[OF ct[symmetric] _ rec] x Inr
      obtain ev new where ih: "trace m' = trace m1 @ ev" "acts' = (acts @ [?act]) @ new"
        "creates ev = []" "responses ev = []"
        "(case eo of
           None \<Rightarrow> tool_events ev = map logged new
                    \<and> map (\<lambda>(n, a, x). (n, a)) (tool_events ev) = map (\<lambda>(i, n, a). (n, a)) tus
                    \<and> (tus \<noteq> [] \<longrightarrow> mcpClient (this m1) \<noteq> None)
         | Some f \<Rightarrow>
            (case mcpClient (this m1) of
               None \<Rightarrow> f = Error (ascii ''Not connected to MCP server. Call connect() first.'') \<and> ev = [] \<and> new = []
             | Some c \<Rightarrow> \<exists>ev0 n a e. f = Rejected e \<and> ev = ev0 @ [CallTool c n a (Inl e)]
                           \<and> tool_events ev0 = map logged new))"
        by auto
      show ?thesis
      proof (cases eo)
        case None
        with ih tr1 Inr Some show ?thesis
          by (intro exI[of _ "CallTool c n a (Inr v) # ev"] exI[of _ "?act # new"])
             (auto simp add: logged_def)
      next
        case (Some f)
        with ih(5) this1 \<open>mcpClient (this m) = Some c\<close> obtain ev0 n' a' e where
          f: "f = Rejected e" "ev = ev0 @ [CallTool c n' a' (Inl e)]" "tool_events ev0 = map logged new"
          by auto
        have "ev = ev0 @ [CallTool c n' a' (Inl e)] \<Longrightarrow>
              CallTool c n a (Inr v) # ev = (CallTool c n a (Inr v) # ev0) @ [CallTool c n' a' (Inl e)]" by simp
        with Some f ih tr1 Inr \<open>mcpClient (this m) = Some c\<close> show ?thesis
          by (intro exI[of _ "CallTool c n a (Inr v) # ev"] exI[of _ "?act # new"])
             (simp add: logged_def)
      qed
    qed
  qed
qed

subsection \<open>\<open>process\<close>: the loop\<close>

lemma loop_this: "loop h m s = (out, m', s') \<Longrightarrow> this m' = this m"
proof (induction rule: loop_cases)
  case (MaxTurns m s)
  then show ?case by simp
next
  case (CreateFails m s e m1)
  then show ?case by (simp add: create_facts)
next
  case (Terminal m s r m1)
  then show ?case by (simp add: create_facts)
next
  case (ToolFails m s r m1 e m2 acts trs)
  then show ?case by (simp add: create_facts call_tools_this)
next
  case (Continue m s r m1 m2 acts trs out m' s')
  then show ?case by (simp add: create_facts call_tools_this)
qed

lemma call_tools_trace_ex:
  "call_tools h tus m acts trs = (eo, m', acts', trs') \<Longrightarrow> \<exists>ev. trace m' = trace m @ ev"
  using call_tools_run[of h tus m acts trs eo m' acts' trs'] by blast

lemma loop_trace_ex: "loop h m s = (out, m', s') \<Longrightarrow> \<exists>ev. trace m' = trace m @ ev"
proof (induction rule: loop_cases)
  case (MaxTurns m s)
  then show ?case by simp
next
  case (CreateFails m s e m1)
  then show ?case by (simp add: create_facts)
next
  case (Terminal m s r m1)
  then show ?case by (simp add: create_facts)
next
  case (ToolFails m s r m1 e m2 acts trs)
  from call_tools_trace_ex[OF ToolFails(4)] obtain ev where "trace m2 = trace m1 @ ev" ..
  with ToolFails show ?case by (simp add: create_facts)
next
  case (Continue m s r m1 m2 acts trs out m' s')
  from call_tools_trace_ex[OF Continue(4)] obtain ev where "trace m2 = trace m1 @ ev" ..
  moreover from Continue(6) obtain ev' where "trace m' = trace m2 @ ev'" ..
  ultimately show ?case using Continue(2) by (simp add: create_facts)
qed

lemma loop_trace: "loop h m s = (out, m', s') \<Longrightarrow> trace m' = trace m @ new_events m m'"
  using loop_trace_ex[of h m s out m' s'] by (auto simp: new_events_def)

text \<open>The events of a round that goes on, and of one that a tool call ends.\<close>

lemma round_events:
  assumes c: "create h msgs m = (Inr r, m1)"
      and t: "call_tools h tus m1 acts trs = (eo, m2, acts', trs')"
      and l: "trace m' = trace m2 @ ev'"
  shows "new_events m m' =
           Create (Request (ascii ''claude-opus-4-6'') 4096 (SYSTEM_PROMPT h) (tools (this m)) msgs) (Inr r)
             # new_events m1 m2 @ ev'"
proof -
  from call_tools_trace_ex[OF t] obtain ev where "trace m2 = trace m1 @ ev" ..
  with create_facts(2)[OF c] l show ?thesis by (simp add: new_events_def)
qed

lemma call_tools_ok:
  assumes "call_tools h tus m acts trs = (None, m', acts', trs')"
  shows "\<exists>ev new. trace m' = trace m @ ev \<and> acts' = acts @ new \<and> creates ev = [] \<and> responses ev = []
     \<and> tool_events ev = map logged new
     \<and> map (\<lambda>(n, a, x). (n, a)) (tool_events ev) = map (\<lambda>(i, n, a). (n, a)) tus
     \<and> (tus \<noteq> [] \<longrightarrow> mcpClient (this m) \<noteq> None)"
  using call_tools_run[OF assms] by simp

lemma call_tools_unconnected:
  assumes "call_tools h tus m acts trs = (Some f, m', acts', trs')" "mcpClient (this m) = None"
  shows "f = Error (ascii ''Not connected to MCP server. Call connect() first.'')
     \<and> trace m' = trace m \<and> acts' = acts"
  using call_tools_run[OF assms(1)] assms(2) by auto

lemma call_tools_rejected:
  assumes "call_tools h tus m acts trs = (Some f, m', acts', trs')" "mcpClient (this m) = Some c"
  shows "\<exists>ev0 new n a e. f = Rejected e \<and> trace m' = trace m @ ev0 @ [CallTool c n a (Inl e)]
     \<and> acts' = acts @ new \<and> creates ev0 = [] \<and> responses ev0 = []
     \<and> tool_events ev0 = map logged new"
proof -
  from call_tools_run[OF assms(1)] assms(2) obtain ev new where
    a: "trace m' = trace m @ ev" "acts' = acts @ new" "creates ev = []" "responses ev = []"
    and b: "\<exists>ev0 n a e. f = Rejected e \<and> ev = ev0 @ [CallTool c n a (Inl e)]
                           \<and> tool_events ev0 = map logged new"
    by auto
  from b obtain ev0 n a e where
    f: "f = Rejected e" "ev = ev0 @ [CallTool c n a (Inl e)]" "tool_events ev0 = map logged new"
    by blast
  from a(3,4) f(2) have "creates ev0 = []" "responses ev0 = []" by simp_all
  with a f show ?thesis by blast
qed

lemma continue_round:
  assumes c: "create h (messages s) m = (Inr r, m1)"
      and nt: "\<not> terminal r"
      and t: "call_tools h (toolUseBlocks (content r)) m1 (actions s) [] = (None, m2, acts, trs)"
      and l: "loop h m2 s3 = (out, m', s')"
  obtains evt newt where
    "new_events m m' = Create (the_request h m (messages s)) (Inr r) # evt @ new_events m2 m'"
    "acts = actions s @ newt" "creates evt = []" "responses evt = []"
    "tool_events evt = map logged newt"
    "map (\<lambda>(n, a, x). (n, a)) (tool_events evt) = requested r"
    "mcpClient (this m) \<noteq> None" "this m2 = this m"
proof -
  from call_tools_ok[OF t] obtain evt newt where
    ct: "trace m2 = trace m1 @ evt" "acts = actions s @ newt" "creates evt = []" "responses evt = []"
      "tool_events evt = map logged newt"
      "map (\<lambda>(n, a, x). (n, a)) (tool_events evt) = map (\<lambda>(i, n, a). (n, a)) (toolUseBlocks (content r))"
      "toolUseBlocks (content r) \<noteq> [] \<longrightarrow> mcpClient (this m1) \<noteq> None"
    by blast
  have ne: "new_events m1 m2 = evt" using ct(1) by simp
  have 1: "new_events m m' = Create (the_request h m (messages s)) (Inr r) # evt @ new_events m2 m'"
    using round_events[OF c t loop_trace[OF l]] ne by simp
  have 2: "mcpClient (this m) \<noteq> None"
    using ct(7) nt create_facts(1)[OF c] by (auto simp: terminal_def)
  have 3: "this m2 = this m"
    using call_tools_this[OF t] create_facts(1)[OF c] by simp
  have 4: "map (\<lambda>(n, a, x). (n, a)) (tool_events evt) = requested r"
    unfolding requested_def by (rule ct(6))
  show ?thesis
    by (rule that[OF 1 ct(2,3,4,5) 4 2 3])
qed

lemma failing_round:
  assumes c: "create h (messages s) m = (Inr r, m1)"
      and nt: "\<not> terminal r"
      and t: "call_tools h (toolUseBlocks (content r)) m1 (actions s) [] = (Some f, m2, acts, trs)"
  obtains (unconnected) "mcpClient (this m) = None"
      "f = Error (ascii ''Not connected to MCP server. Call connect() first.'')"
      "new_events m m2 = [Create (the_request h m (messages s)) (Inr r)]" "acts = actions s"
    | (rejected) c0 ev0 newt n a e where "mcpClient (this m) = Some c0" "f = Rejected e"
      "new_events m m2 = Create (the_request h m (messages s)) (Inr r) # ev0 @ [CallTool c0 n a (Inl e)]"
      "acts = actions s @ newt" "creates ev0 = []" "responses ev0 = []" "tool_events ev0 = map logged newt"
proof -
  have th: "this m1 = this m" using create_facts(1)[OF c] .
  have tr1: "trace m1 = trace m @ [Create (the_request h m (messages s)) (Inr r)]"
    using create_facts(2)[OF c] .
  show ?thesis
  proof (cases "mcpClient (this m)")
    case None
    with th have "mcpClient (this m1) = None" by simp
    from call_tools_unconnected[OF t this]
    have f: "f = Error (ascii ''Not connected to MCP server. Call connect() first.'')"
      and tr2: "trace m2 = trace m1" and a: "acts = actions s" by simp_all
    have ne: "new_events m m2 = [Create (the_request h m (messages s)) (Inr r)]"
      using tr1 tr2 by simp
    show ?thesis by (rule unconnected[OF None f ne a])
  next
    case (Some c0)
    with th have "mcpClient (this m1) = Some c0" by simp
    from call_tools_rejected[OF t this] obtain ev0 newt n a e where
      f: "f = Rejected e" and tr2: "trace m2 = trace m1 @ ev0 @ [CallTool c0 n a (Inl e)]"
      and a: "acts = actions s @ newt" and e: "creates ev0 = []" "responses ev0 = []"
        "tool_events ev0 = map logged newt"
      by blast
    have ne: "new_events m m2 = Create (the_request h m (messages s)) (Inr r) # ev0 @ [CallTool c0 n a (Inl e)]"
      using tr1 tr2 by simp
    show ?thesis by (rule rejected[OF Some f ne a e])
  qed
qed

lemma create_events:
  "create h msgs m = (x, m1) \<Longrightarrow> new_events m m1 = [Create (the_request h m msgs) x]"
  using create_facts(2)[of h msgs m x m1] by simp

lemma loop_turns:
  "loop h m s = (out, m', s') \<Longrightarrow> turns s' = turns s + length (creates (new_events m m'))"
proof (induction rule: loop_cases)
  case (MaxTurns m s)
  then show ?case by simp
next
  case (CreateFails m s e m1)
  then show ?case by (simp add: create_events)
next
  case (Terminal m s r m1)
  then show ?case by (simp add: create_events)
next
  case (ToolFails m s r m1 f m2 acts trs)
  from ToolFails(2,3,4) show ?case
    by (cases rule: failing_round) simp_all
next
  case (Continue m s r m1 m2 acts trs out m' s')
  from Continue(2,3,4,5) obtain evt where
    "new_events m m' = Create (the_request h m (messages s)) (Inr r) # evt @ new_events m2 m'"
    "creates evt = []"
    by (rule continue_round)
  with Continue(6) show ?case by simp
qed

lemma loop_turns_le:
  "loop h m s = (out, m', s') \<Longrightarrow> turns s \<le> MAX_TURNS \<Longrightarrow> turns s' \<le> MAX_TURNS"
  by (induction rule: loop_cases) simp_all

text \<open>The log at the end: what it had, and an entry for each tool call that was answered.\<close>

lemma loop_log:
  assumes "loop h m s = (out, m', s')"
  shows "\<exists>new. actions s' = actions s @ new
     \<and> (tool_events (new_events m m') = map logged new
        \<or> (\<exists>c n a e ev0. out = Inl (Rejected e) \<and> new_events m m' = ev0 @ [CallTool c n a (Inl e)]
              \<and> tool_events ev0 = map logged new))"
  using assms
proof (induction rule: loop_cases)
  case (MaxTurns m s)
  then show ?case by simp
next
  case (CreateFails m s e m1)
  then show ?case by (simp add: create_events)
next
  case (Terminal m s r m1)
  then show ?case by (simp add: create_events)
next
  case (ToolFails m s r m1 f m2 acts trs)
  from ToolFails(2,3,4) show ?case
  proof (cases rule: failing_round)
    case unconnected
    then show ?thesis by simp
  next
    case (rejected c0 ev0 newt n a e)
    have "new_events m m2 = (Create (the_request h m (messages s)) (Inr r) # ev0) @ [CallTool c0 n a (Inl e)]"
      using rejected(3) by simp
    moreover have "tool_events (Create (the_request h m (messages s)) (Inr r) # ev0) = map logged newt"
      using rejected(7) by simp
    ultimately show ?thesis using rejected(2,4) by (intro exI[of _ newt]) auto
  qed
next
  case (Continue m s r m1 m2 acts trs out m' s')
  from Continue(2,3,4,5) obtain evt newt where r:
    "new_events m m' = Create (the_request h m (messages s)) (Inr r) # evt @ new_events m2 m'"
    "acts = actions s @ newt" "tool_events evt = map logged newt"
    by (rule continue_round)
  from Continue(6) obtain new where n: "actions s' = acts @ new"
     "tool_events (new_events m2 m') = map logged new
        \<or> (\<exists>c n a e ev0. out = Inl (Rejected e) \<and> new_events m2 m' = ev0 @ [CallTool c n a (Inl e)]
              \<and> tool_events ev0 = map logged new)"
    by auto
  from n(2) show ?case
  proof
    assume "tool_events (new_events m2 m') = map logged new"
    with r n(1) show ?thesis by (intro exI[of _ "newt @ new"]) simp
  next
    assume "\<exists>c n a e ev0. out = Inl (Rejected e) \<and> new_events m2 m' = ev0 @ [CallTool c n a (Inl e)]
              \<and> tool_events ev0 = map logged new"
    then obtain c n a e ev0 where f: "out = Inl (Rejected e)"
      "new_events m2 m' = ev0 @ [CallTool c n a (Inl e)]" "tool_events ev0 = map logged new" by blast
    have "new_events m m' = (Create (the_request h m (messages s)) (Inr r) # evt @ ev0) @ [CallTool c n a (Inl e)]"
      using r(1) f(2) by simp
    moreover have "tool_events (Create (the_request h m (messages s)) (Inr r) # evt @ ev0) = map logged (newt @ new)"
      using r(3) f(3) by simp
    ultimately show ?thesis using f(1) r(2) n(1) by (intro exI[of _ "newt @ new"]) auto
  qed
qed

lemma CallTool_in_tool_events:
  "CallTool c n a x \<in> set ev \<Longrightarrow> (n, a, x) \<in> set (tool_events ev)"
  by (induction ev rule: tool_events.induct) auto

lemma logged_not_Inl: "(n, a, Inl e) \<notin> set (map logged new)"
  by (auto simp: logged_def)

lemma no_failed_call:
  "tool_events ev = map logged new \<Longrightarrow> CallTool c n a (Inl e) \<notin> set ev"
  using CallTool_in_tool_events[of c n a "Inl e" ev] logged_not_Inl[of n a e new] by auto

text \<open>A run that returns.\<close>

lemma loop_return:
  assumes "loop h m s = (out, m', s')"
  shows "\<forall>resp acts. out = Inr (resp, acts) \<longrightarrow>
     acts = actions s'
     \<and> (\<exists>ev0 req r. new_events m m' = ev0 @ [Create req (Inr r)] \<and> terminal r
           \<and> (\<forall>x\<in>set (responses ev0). \<not> terminal x)
           \<and> resp = trim (join [] (textBlocks (content r)))
           \<and> map (\<lambda>(n, a, x). (n, a)) (tool_events ev0) = concat (map requested (responses ev0)))"
  using assms
proof (induction rule: loop_cases)
  case (MaxTurns m s)
  then show ?case by simp
next
  case (CreateFails m s e m1)
  then show ?case by simp
next
  case (Terminal m s r m1)
  have "new_events m m1 = [] @ [Create (the_request h m (messages s)) (Inr r)]"
    using create_events[OF Terminal(2)] by simp
  with Terminal(3) show ?case by (intro allI impI conjI exI[of _ "[]"] exI[of _ r] exI) auto
next
  case (ToolFails m s r m1 f m2 acts trs)
  then show ?case by simp
next
  case (Continue m s r m1 m2 acts trs out m' s')
  from Continue(2,3,4,5) obtain evt newt where r:
    "new_events m m' = Create (the_request h m (messages s)) (Inr r) # evt @ new_events m2 m'"
    "responses evt = []" "map (\<lambda>(n, a, x). (n, a)) (tool_events evt) = requested r"
    by (rule continue_round)
  show ?case
  proof (intro allI impI)
    fix resp acts' assume "out = Inr (resp, acts')"
    with Continue(6) obtain ev0 req r' where ih: "acts' = actions s'"
      "new_events m2 m' = ev0 @ [Create req (Inr r')]" "terminal r'"
      "\<forall>x\<in>set (responses ev0). \<not> terminal x"
      "resp = trim (join [] (textBlocks (content r')))"
      "map (\<lambda>(n, a, x). (n, a)) (tool_events ev0) = concat (map requested (responses ev0))"
      by blast
    let ?ev0 = "Create (the_request h m (messages s)) (Inr r) # evt @ ev0"
    have 1: "new_events m m' = ?ev0 @ [Create req (Inr r')]" using r(1) ih(2) by simp
    have 2: "\<forall>x\<in>set (responses ?ev0). \<not> terminal x" using r(2) ih(4) Continue(3) by simp
    have 3: "map (\<lambda>(n, a, x). (n, a)) (tool_events ?ev0) = concat (map requested (responses ?ev0))"
      using r(2,3) ih(6) by simp
    show "acts' = actions s'
     \<and> (\<exists>ev0 req r. new_events m m' = ev0 @ [Create req (Inr r)] \<and> terminal r
           \<and> (\<forall>x\<in>set (responses ev0). \<not> terminal x)
           \<and> resp = trim (join [] (textBlocks (content r)))
           \<and> map (\<lambda>(n, a, x). (n, a)) (tool_events ev0) = concat (map requested (responses ev0)))"
      using ih(1,3,5) 1 2 3 by blast
  qed
qed

text \<open>A run that fails has seen no terminal response.\<close>

lemma loop_failure:
  assumes "loop h m s = (out, m', s')"
  shows "(\<exists>resp acts. out = Inr (resp, acts)) \<or> (\<forall>x\<in>set (responses (new_events m m')). \<not> terminal x)"
  using assms
proof (induction rule: loop_cases)
  case (MaxTurns m s)
  then show ?case by simp
next
  case (CreateFails m s e m1)
  then show ?case by (simp add: create_events)
next
  case (Terminal m s r m1)
  then show ?case by simp
next
  case (ToolFails m s r m1 f m2 acts trs)
  from ToolFails(2,3,4) show ?case
    by (cases rule: failing_round) (use ToolFails(3) in simp_all)
next
  case (Continue m s r m1 m2 acts trs out m' s')
  from Continue(2,3,4,5) obtain evt where
    "new_events m m' = Create (the_request h m (messages s)) (Inr r) # evt @ new_events m2 m'"
    "responses evt = []"
    by (rule continue_round)
  with Continue(3,6) show ?case by auto
qed

text \<open>A tool call the peer rejects is the last thing a run does, and its outcome.\<close>

lemma loop_rejected_call:
  assumes "loop h m s = (out, m', s')"
  shows "CallTool c n a (Inl e) \<in> set (new_events m m') \<longrightarrow>
     out = Inl (Rejected e) \<and> (\<exists>ev0. new_events m m' = ev0 @ [CallTool c n a (Inl e)])"
  using assms
proof (induction rule: loop_cases)
  case (MaxTurns m s)
  then show ?case by simp
next
  case (CreateFails m s e m1)
  then show ?case by (simp add: create_events)
next
  case (Terminal m s r m1)
  then show ?case by (simp add: create_events)
next
  case (ToolFails m s r m1 f m2 acts trs)
  from ToolFails(2,3,4) show ?case
  proof (cases rule: failing_round)
    case unconnected
    then show ?thesis by simp
  next
    case (rejected c0 ev0 newt n' a' e')
    show ?thesis
    proof
      assume "CallTool c n a (Inl e) \<in> set (new_events m m2)"
      with rejected(3) no_failed_call[OF rejected(7), of c n a e]
      have "CallTool c n a (Inl e) = CallTool c0 n' a' (Inl e')" by auto
      with rejected(2,3) show "Inl f = Inl (Rejected e) \<and> (\<exists>ev0. new_events m m2 = ev0 @ [CallTool c n a (Inl e)])"
        by (intro conjI exI[of _ "Create (the_request h m (messages s)) (Inr r) # ev0"]) simp_all
    qed
  qed
next
  case (Continue m s r m1 m2 acts trs out m' s')
  from Continue(2,3,4,5) obtain evt newt where r:
    "new_events m m' = Create (the_request h m (messages s)) (Inr r) # evt @ new_events m2 m'"
    "tool_events evt = map logged newt"
    by (rule continue_round)
  show ?case
  proof
    assume "CallTool c n a (Inl e) \<in> set (new_events m m')"
    with r(1) no_failed_call[OF r(2), of c n a e]
    have "CallTool c n a (Inl e) \<in> set (new_events m2 m')" by auto
    with Continue(6) obtain ev0 where "out = Inl (Rejected e)"
      "new_events m2 m' = ev0 @ [CallTool c n a (Inl e)]" by blast
    with r(1) show "out = Inl (Rejected e) \<and> (\<exists>ev0. new_events m m' = ev0 @ [CallTool c n a (Inl e)])"
      by (intro conjI exI[of _ "Create (the_request h m (messages s)) (Inr r) # evt @ ev0"]) simp_all
  qed
qed


text \<open>An agent without a client: one call to the decision service, none to the peer.\<close>

lemma loop_unconnected:
  assumes "loop h m s = (out, m', s')"
  shows "mcpClient (this m) = None \<longrightarrow> turns s < MAX_TURNS \<longrightarrow>
     actions s' = actions s
     \<and> (\<exists>x. new_events m m' = [Create (the_request h m (messages s)) x]
            \<and> out = (case x of
                       Inl e \<Rightarrow> Inl (Rejected e)
                     | Inr r \<Rightarrow>
                         if terminal r then Inr (trim (join [] (textBlocks (content r))), actions s)
                         else Inl (Error (ascii ''Not connected to MCP server. Call connect() first.''))))"
  using assms
proof (induction rule: loop_cases)
  case (MaxTurns m s)
  then show ?case by simp
next
  case (CreateFails m s e m1)
  then show ?case by (simp add: create_events)
next
  case (Terminal m s r m1)
  then show ?case by (simp add: create_events)
next
  case (ToolFails m s r m1 f m2 acts trs)
  from ToolFails(2,3,4) show ?case
    by (cases rule: failing_round) (use ToolFails(3) in simp_all)
next
  case (Continue m s r m1 m2 acts trs out m' s')
  from Continue(2,3,4,5) have "mcpClient (this m) \<noteq> None"
    by (rule continue_round)
  then show ?case by blast
qed

text \<open>The first request of a run carries the messages the run starts with.\<close>

lemma loop_first_request:
  assumes "loop h m s = (out, m', s')"
  shows "turns s < MAX_TURNS \<longrightarrow>
     (\<exists>x rest. new_events m m' = Create (the_request h m (messages s)) x # rest)"
  using assms
proof (induction rule: loop_cases)
  case (MaxTurns m s)
  then show ?case by simp
next
  case (CreateFails m s e m1)
  then show ?case by (simp add: create_events)
next
  case (Terminal m s r m1)
  then show ?case by (simp add: create_events)
next
  case (ToolFails m s r m1 f m2 acts trs)
  from ToolFails(2,3,4) show ?case
    by (cases rule: failing_round) simp_all
next
  case (Continue m s r m1 m2 acts trs out m' s')
  from Continue(2,3,4,5) obtain evt where
    "new_events m m' = Create (the_request h m (messages s)) (Inr r) # evt @ new_events m2 m'"
    by (rule continue_round)
  then show ?case by simp
qed

subsection \<open>\<open>process\<close>: whole calls\<close>

lemma process_cases [consumes 1, case_names Invalid Valid]:
  assumes "process h inp now m = (out, m', s')"
  obtains (Invalid) e where "formatDateContext h now = Inl e" "out = Inl (Exception e)" "m' = m"
      "s' = \<lparr>messages = [], actions = [], turns = 0\<rparr>"
    | (Valid) dc where "formatDateContext h now = Inr dc"
      "loop h m \<lparr>messages = [Message user (Str (dc @ [0xA, 0xA] @ inp))], actions = [], turns = 0\<rparr>
         = (out, m', s')"
  using assms by (cases "formatDateContext h now") (auto simp: process_def Let_def)



subsection \<open>Concrete runs\<close>

lemma formatDateContext_epoch: "formatDateContext scripted (Some 0) = Inr epoch_context"
  by (simp add: formatDateContext_def recentWeekdays_def weekdays_def recentWeekday_def
      scripted_def epoch_context_def date_eval ascii_def del: One_nat_def cong: let_weak)

lemma scripted_fields:
  "messages_create scripted req w = (case w of [] \<Rightarrow> (Inl 0, []) | r # rs \<Rightarrow> (Inr r, rs))"
  "Client_callTool scripted c n a w = (if a = 0 then Inl 7 else Inr (a + 100), w)"
  "Client_close scripted c w = (Inr (), w)"
  "JSON_stringify scripted = decimal"
  "SYSTEM_PROMPT scripted = ascii ''system''"
  by (simp_all add: scripted_def)

lemma process_epoch:
  "process scripted inp (Some 0) m =
     loop scripted m \<lparr>messages = [Message user (Str (epoch_context @ [0xA, 0xA] @ inp))], actions = [], turns = 0\<rparr>"
  by (simp add: process_def formatDateContext_epoch)

lemma trim_all_done: "trim (ascii ''  All '' @ ascii ''done. '') = ascii ''All done.''"
  by (simp add: trim_def isWhiteSpace_def ascii_def)

lemma trim_done: "trim (ascii ''Done.'') = ascii ''Done.''"
  by (simp add: trim_def isWhiteSpace_def ascii_def)

lemma result3: "p = (fst p, fst (snd p), snd (snd p))"
  by simp

lemmas run_eval = run_connected_def run_fresh_def run_again_def process_epoch loop.simps create_def
  callTool_def scripted_fields MAX_TURNS_def Let_def connected_eq fresh_def new_LifeRhythmAgent_def
  new_events_def trim_all_done trim_done
  more_def stubborn_def finished_def eager_def pair_def failing_def rejecting_def




lemma pair_run_out:
  "fst (run_connected [pair, finished]) =
     Inr (ascii ''All done.'',
          [\<lparr>tool = ascii ''create_item'', input = 5, result = 105\<rparr>,
           \<lparr>tool = ascii ''add_reminder'', input = 7, result = 107\<rparr>])"
  by (simp add: run_eval cong: let_weak)

lemma pair_run_responses:
  "responses (new_events (connected [pair, finished]) (fst (snd (run_connected [pair, finished]))))
     = [pair, finished]"
  by (simp add: run_eval cong: let_weak)


lemma finished_run_out: "fst (run_connected [finished]) = Inr (ascii ''All done.'', [])"
  by (simp add: run_eval cong: let_weak)

lemma terminal_examples: "terminal finished" "\<not> terminal pair" "terminal eager"
  by (simp_all add: terminal_def finished_def pair_def eager_def)

lemma failing_run:
  "fst (run_connected [failing]) = Inl (Rejected 7)"
  "tool_events (new_events (connected [failing]) (fst (snd (run_connected [failing]))))
     = [(ascii ''create_item'', 5, Inr 105), (ascii ''create_item'', 0, Inl 7)]"
  "actions (snd (snd (run_connected [failing]))) = [\<lparr>tool = ascii ''create_item'', input = 5, result = 105\<rparr>]"
  "CallTool 1 (ascii ''create_item'') 0 (Inl 7)
     \<in> set (new_events (connected [failing]) (fst (snd (run_connected [failing]))))"
  by (simp_all add: run_eval cong: let_weak)

lemma fresh_more_run:
  "fst (run_fresh [more]) = Inl (Error (ascii ''Not connected to MCP server. Call connect() first.''))"
  "tool_events (new_events (fresh [more]) (fst (snd (run_fresh [more])))) = []"
  "creates (new_events (fresh [more]) (fst (snd (run_fresh [more])))) = [Inr more]"
  by (simp_all add: run_eval cong: let_weak)

lemma again_run:
  "fst (run_connected [pair, finished, finished]) =
     Inr (ascii ''All done.'',
          [\<lparr>tool = ascii ''create_item'', input = 5, result = 105\<rparr>,
           \<lparr>tool = ascii ''add_reminder'', input = 7, result = 107\<rparr>])"
  "fst (run_again [pair, finished, finished]) = Inr (ascii ''All done.'', [])"
  "turns (snd (snd (run_again [pair, finished, finished]))) = 1"
  "actions (snd (snd (run_again [pair, finished, finished]))) = []"
  "this (fst (snd (run_again [pair, finished, finished]))) = this (connected [pair, finished, finished])"
  by (simp_all add: run_eval cong: let_weak)

subsection \<open>\<open>process\<close>: the claims\<close>

text \<open>
  C1, as the code has it. A call of \<open>process\<close> returns exactly when one of the responses it
  received is terminal, where a response is terminal when its stop reason is \<open>end_turn\<close>
  or it has no \<open>tool_use\<close> block: either is enough. That response is the last thing the
  call received, and no response before it was terminal. The text returned is the
  response's text blocks, joined in order with no separator and trimmed; the actions
  returned are the log of the tool calls made before it; and they are empty when the
  terminal response is the first.
\<close>

theorem process_returns_on_terminal_response:
  assumes "process h inp now m = (out, m', s')"
  shows "((\<exists>resp acts. out = Inr (resp, acts)) \<longleftrightarrow> (\<exists>r\<in>set (responses (new_events m m')). terminal r))
       \<and> (\<forall>resp acts. out = Inr (resp, acts) \<longrightarrow>
            (\<exists>ev0 req r. new_events m m' = ev0 @ [Create req (Inr r)] \<and> terminal r
               \<and> (\<forall>x\<in>set (responses ev0). \<not> terminal x)
               \<and> resp = trim (join [] (textBlocks (content r)))
               \<and> map logged acts = tool_events ev0
               \<and> (responses ev0 = [] \<longrightarrow> acts = [])))"
  using assms
proof (cases rule: process_cases)
  case (Invalid e)
  then show ?thesis by simp
next
  case (Valid dc)
  let ?s = "\<lparr>messages = [Message user (Str (dc @ [0xA, 0xA] @ inp))], actions = [], turns = 0\<rparr>"
  note run = Valid(2)
  have ret: "\<exists>ev0 req r. new_events m m' = ev0 @ [Create req (Inr r)] \<and> terminal r
               \<and> (\<forall>x\<in>set (responses ev0). \<not> terminal x)
               \<and> resp = trim (join [] (textBlocks (content r)))
               \<and> map logged acts = tool_events ev0
               \<and> (responses ev0 = [] \<longrightarrow> acts = [])" if o: "out = Inr (resp, acts)" for resp acts
  proof -
    from loop_return[OF run] o obtain ev0 req r where r: "acts = actions s'"
      "new_events m m' = ev0 @ [Create req (Inr r)]" "terminal r"
      "\<forall>x\<in>set (responses ev0). \<not> terminal x" "resp = trim (join [] (textBlocks (content r)))"
      "map (\<lambda>(n, a, x). (n, a)) (tool_events ev0) = concat (map requested (responses ev0))"
      by blast
    from loop_log[OF run] o obtain new where "actions s' = new" "tool_events (new_events m m') = map logged new"
      by auto
    with r(1,2) have l: "map logged acts = tool_events ev0" by simp
    have "acts = []" if "responses ev0 = []"
    proof -
      from that r(6) have "tool_events ev0 = []" by simp
      with l show ?thesis by simp
    qed
    with r l show ?thesis by blast
  qed
  have iff: "(\<exists>resp acts. out = Inr (resp, acts)) \<longleftrightarrow> (\<exists>r\<in>set (responses (new_events m m')). terminal r)"
  proof
    assume "\<exists>resp acts. out = Inr (resp, acts)"
    then obtain resp acts where "out = Inr (resp, acts)" by blast
    from ret[OF this] show "\<exists>r\<in>set (responses (new_events m m')). terminal r" by auto
  next
    assume "\<exists>r\<in>set (responses (new_events m m')). terminal r"
    with loop_failure[OF run] show "\<exists>resp acts. out = Inr (resp, acts)" by blast
  qed
  from iff ret show ?thesis by blast
qed

theorem process_returns_on_terminal_response_witness:
  "fst (run_connected [pair, finished]) =
     Inr (ascii ''All done.'',
          [\<lparr>tool = ascii ''create_item'', input = 5, result = 105\<rparr>,
           \<lparr>tool = ascii ''add_reminder'', input = 7, result = 107\<rparr>])
   \<and> responses (new_events (connected [pair, finished]) (fst (snd (run_connected [pair, finished]))))
       = [pair, finished]
   \<and> \<not> terminal pair \<and> terminal finished
   \<and> fst (run_connected [finished]) = Inr (ascii ''All done.'', [])"
  using process_returns_on_terminal_response
    [where h = scripted and inp = "ascii ''hi''" and now = "Some 0" and m = "connected [pair, finished]",
     folded run_connected_def, OF result3]
    pair_run_out pair_run_responses terminal_examples finished_run_out
  by simp

text \<open>
  The claim of C1 as written, that the loop returns exactly when the response has no
  tool-invocation request, fails on a response that ends the turn and still carries one:
  the call returns its text, and the requested tool is never called.
\<close>

theorem end_turn_with_tool_request_returns:
  "fst (run_connected [eager]) = Inr (ascii ''Done.'', [])
   \<and> requested eager = [(ascii ''create_item'', 5)]
   \<and> tool_events (new_events (connected [eager]) (fst (snd (run_connected [eager])))) = []"
  by (simp add: run_eval requested_def cong: let_weak)





text \<open>
  C5, as the code has it. When the peer rejects a tool call, \<open>process\<close> fails with that
  very rejection, and the rejected call is the last thing it did: no retry, no further
  call to the peer or to the decision service. The log at that moment holds the calls
  answered before, and no entry for the rejected one.
\<close>

theorem process_propagates_tool_rejection:
  assumes "process h inp now m = (out, m', s')"
      and "CallTool c n a (Inl e) \<in> set (new_events m m')"
  shows "out = Inl (Rejected e)
       \<and> (\<exists>ev0. new_events m m' = ev0 @ [CallTool c n a (Inl e)]
             \<and> map logged (actions s') = tool_events ev0)"
  using assms(1)
proof (cases rule: process_cases)
  case (Invalid e)
  with assms(2) show ?thesis by simp
next
  case (Valid dc)
  note run = Valid(2)
  from loop_rejected_call[OF run] assms(2) obtain ev0 where r: "out = Inl (Rejected e)"
    "new_events m m' = ev0 @ [CallTool c n a (Inl e)]" by blast
  from loop_log[OF run] obtain new where n: "actions s' = new" 
    "tool_events (new_events m m') = map logged new
        \<or> (\<exists>c n a e ev0. out = Inl (Rejected e) \<and> new_events m m' = ev0 @ [CallTool c n a (Inl e)]
              \<and> tool_events ev0 = map logged new)" by auto
  from n(2) have "tool_events ev0 = map logged new"
  proof
    assume "tool_events (new_events m m') = map logged new"
    from no_failed_call[OF this, of c n a e] assms(2) show ?thesis by simp
  next
    assume "\<exists>c n a e ev0. out = Inl (Rejected e) \<and> new_events m m' = ev0 @ [CallTool c n a (Inl e)]
              \<and> tool_events ev0 = map logged new"
    then obtain c' n' a' e' ev1 where "new_events m m' = ev1 @ [CallTool c' n' a' (Inl e')]"
      "tool_events ev1 = map logged new" by blast
    with r(2) show ?thesis by simp
  qed
  with r n(1) show ?thesis by simp
qed

theorem process_propagates_tool_rejection_witness:
  "CallTool 1 (ascii ''create_item'') 0 (Inl 7)
     \<in> set (new_events (connected [failing]) (fst (snd (run_connected [failing]))))
   \<and> fst (run_connected [failing]) = Inl (Rejected 7)
   \<and> tool_events (new_events (connected [failing]) (fst (snd (run_connected [failing]))))
       = [(ascii ''create_item'', 5, Inr 105), (ascii ''create_item'', 0, Inl 7)]
   \<and> actions (snd (snd (run_connected [failing])))
       = [\<lparr>tool = ascii ''create_item'', input = 5, result = 105\<rparr>]"
  using process_propagates_tool_rejection
    [where h = scripted and inp = "ascii ''hi''" and now = "Some 0" and m = "connected [failing]",
     folded run_connected_def, OF result3 failing_run(4)]
    failing_run
  by simp

text \<open>
  The claim of C5 as written, that the error is recorded in the action-log entry of its
  call, fails: \<open>_callTool\<close> raises before \<open>actions.push\<close>, so a run whose only tool call is
  rejected ends with an empty log.
\<close>

theorem rejected_call_is_not_logged:
  "fst (run_connected [rejecting]) = Inl (Rejected 7)
   \<and> tool_events (new_events (connected [rejecting]) (fst (snd (run_connected [rejecting]))))
       = [(ascii ''create_item'', 0, Inl 7)]
   \<and> actions (snd (snd (run_connected [rejecting]))) = []"
  by (simp add: run_eval cong: let_weak)

text \<open>
  C6, as the code has it. On an agent whose \<open>mcpClient\<close> is \<open>null\<close>, \<open>process\<close> never calls
  the peer and logs no action. With a valid date it asks the decision service once: it
  fails with the \<open>Not connected\<close> error when the response is not terminal, returns the
  response's text with no actions when it is, and fails with the service's rejection when
  the service rejects. (The connection is checked in \<open>_callTool\<close> only.)
\<close>

theorem process_without_client:
  assumes "process h inp now m = (out, m', s')"
      and "mcpClient (this m) = None"
  shows "tool_events (new_events m m') = [] \<and> actions s' = []
       \<and> (case formatDateContext h now of
            Inl x \<Rightarrow> out = Inl (Exception x) \<and> new_events m m' = []
          | Inr dc \<Rightarrow>
              (\<exists>x. new_events m m' = [Create (the_request h m [Message user (Str (dc @ [0xA, 0xA] @ inp))]) x]
                 \<and> out = (case x of
                            Inl e \<Rightarrow> Inl (Rejected e)
                          | Inr r \<Rightarrow>
                              if terminal r then Inr (trim (join [] (textBlocks (content r))), [])
                              else Inl (Error (ascii ''Not connected to MCP server. Call connect() first.'')))))"
  using assms(1)
proof (cases rule: process_cases)
  case (Invalid e)
  then show ?thesis by simp
next
  case (Valid dc)
  note run = Valid(2)
  have "turns \<lparr>messages = [Message user (Str (dc @ [0xA, 0xA] @ inp))], actions = [], turns = 0\<rparr> < MAX_TURNS"
    by (simp add: MAX_TURNS_def)
  with loop_unconnected[OF run] assms(2) obtain x where
    a: "actions s' = []"
    and e: "new_events m m' = [Create (the_request h m [Message user (Str (dc @ [0xA, 0xA] @ inp))]) x]"
    and o: "out = (case x of
                     Inl e \<Rightarrow> Inl (Rejected e)
                   | Inr r \<Rightarrow>
                       if terminal r
                       then Inr (trim (join [] (textBlocks (content r))),
                                 actions \<lparr>messages = [Message user (Str (dc @ [0xA, 0xA] @ inp))],
                                           actions = [], turns = 0\<rparr>)
                       else Inl (Error (ascii ''Not connected to MCP server. Call connect() first.'')))"
    by auto
  from o have o': "out = (case x of
                            Inl e \<Rightarrow> Inl (Rejected e)
                          | Inr r \<Rightarrow>
                              if terminal r then Inr (trim (join [] (textBlocks (content r))), [])
                              else Inl (Error (ascii ''Not connected to MCP server. Call connect() first.'')))"
    by (cases x) simp_all
  from e have "tool_events (new_events m m') = []" by simp
  with a e o' Valid(1) show ?thesis by auto
qed

theorem process_without_client_witness:
  "mcpClient (this (fresh [more])) = None
   \<and> fst (run_fresh [more]) = Inl (Error (ascii ''Not connected to MCP server. Call connect() first.''))
   \<and> creates (new_events (fresh [more]) (fst (snd (run_fresh [more])))) = [Inr more]
   \<and> tool_events (new_events (fresh [more]) (fst (snd (run_fresh [more])))) = []"
proof -
  have n: "mcpClient (this (fresh [more])) = None"
    by (simp add: fresh_def new_LifeRhythmAgent_def)
  note all = process_without_client
    [where h = scripted and inp = "ascii ''hi''" and now = "Some 0" and m = "fresh [more]",
     folded run_fresh_def, OF result3 n]
  from all have "tool_events (new_events (fresh [more]) (fst (snd (run_fresh [more])))) = []"
    by simp
  with n fresh_more_run show ?thesis by simp
qed

text \<open>
  The claim of C6 as written, that \<open>process\<close> fails on every agent that is not connected,
  fails when the first response is terminal: the call returns, as the repository's test
  of \<open>end_turn\<close> on a new agent expects.
\<close>

theorem process_without_client_returns:
  "mcpClient (this (fresh [finished])) = None
   \<and> fst (run_fresh [finished]) = Inr (ascii ''All done.'', [])"
  by (simp add: run_eval cong: let_weak)

text \<open>
  C9. A call of \<open>process\<close> leaves the fields of the agent as they were, whether it returns
  or fails. A second call on the same agent starts anew: its first request carries the
  one new user message, its turn counter counts its own calls to the decision service
  only and stays within \<open>MAX_TURNS\<close>, and its log holds its own tool calls only.
\<close>

theorem process_leaves_agent:
  assumes "process h inp1 now1 m = (out1, m1, s1)"
      and "process h inp2 now2 m1 = (out2, m2, s2)"
  shows "this m1 = this m \<and> this m2 = this m
       \<and> turns s2 = length (creates (new_events m1 m2)) \<and> turns s2 \<le> MAX_TURNS
       \<and> (tool_events (new_events m1 m2) = map logged (actions s2)
          \<or> (\<exists>c n a e ev0. new_events m1 m2 = ev0 @ [CallTool c n a (Inl e)]
                \<and> tool_events ev0 = map logged (actions s2)))
       \<and> (\<forall>dc. formatDateContext h now2 = Inr dc \<longrightarrow>
            (\<exists>x rest. new_events m1 m2 =
               Create (the_request h m [Message user (Str (dc @ [0xA, 0xA] @ inp2))]) x # rest))"
proof -
  have frame: "this b = this a \<and> turns s = length (creates (new_events a b)) \<and> turns s \<le> MAX_TURNS
       \<and> (tool_events (new_events a b) = map logged (actions s)
          \<or> (\<exists>c n x e ev0. new_events a b = ev0 @ [CallTool c n x (Inl e)]
                \<and> tool_events ev0 = map logged (actions s)))
       \<and> (\<forall>dc. formatDateContext h now = Inr dc \<longrightarrow>
            (\<exists>x rest. new_events a b =
               Create (the_request h a [Message user (Str (dc @ [0xA, 0xA] @ inp))]) x # rest))"
    if p: "process h inp now a = (out, b, s)" for inp now a out b s
    using p
  proof (cases rule: process_cases)
    case (Invalid e)
    then show ?thesis by simp
  next
    case (Valid dc)
    note run = Valid(2)
    from loop_log[OF run] have "tool_events (new_events a b) = map logged (actions s)
          \<or> (\<exists>c n x e ev0. new_events a b = ev0 @ [CallTool c n x (Inl e)]
                \<and> tool_events ev0 = map logged (actions s))" by auto
    moreover from loop_turns[OF run] have "turns s = length (creates (new_events a b))" by simp
    moreover from loop_turns_le[OF run] have "turns s \<le> MAX_TURNS" by simp
    moreover from loop_first_request[OF run] Valid(1) have "\<forall>dc. formatDateContext h now = Inr dc \<longrightarrow>
            (\<exists>x rest. new_events a b =
               Create (the_request h a [Message user (Str (dc @ [0xA, 0xA] @ inp))]) x # rest)"
      by (simp add: MAX_TURNS_def)
    moreover note loop_this[OF run]
    ultimately show ?thesis by blast
  qed
  from frame[OF assms(1)] frame[OF assms(2)] show ?thesis by simp
qed

theorem process_leaves_agent_witness:
  "fst (run_connected [pair, finished, finished]) =
     Inr (ascii ''All done.'',
          [\<lparr>tool = ascii ''create_item'', input = 5, result = 105\<rparr>,
           \<lparr>tool = ascii ''add_reminder'', input = 7, result = 107\<rparr>])
   \<and> fst (run_again [pair, finished, finished]) = Inr (ascii ''All done.'', [])
   \<and> turns (snd (snd (run_again [pair, finished, finished]))) = 1
   \<and> actions (snd (snd (run_again [pair, finished, finished]))) = []
   \<and> this (fst (snd (run_again [pair, finished, finished]))) = this (connected [pair, finished, finished])"
proof -
  note all = process_leaves_agent
    [where h = scripted and ?inp1.0 = "ascii ''hi''" and ?now1.0 = "Some 0"
       and m = "connected [pair, finished, finished]"
       and ?inp2.0 = "ascii ''again''" and ?now2.0 = "Some 0",
     folded run_connected_def, OF result3, folded run_again_def, OF result3]
  from all have "this (fst (snd (run_again [pair, finished, finished]))) = this (connected [pair, finished, finished])"
    by simp
  with again_run show ?thesis by simp
qed

end
